theory Spec2Isabelle
  imports
    Main
    "HOL-Library.AList"
    "HOL-Library.Char_ord"
    "HOL-Library.List_Lexorder"
    "HOL-Library.Multiset"
    "HOL-Library.Word"
begin

unbundle bit_operations_syntax

section \<open>Go values used by package asset\<close>

text \<open>
  A Go \<open>string\<close> and a \<open>[]byte\<close> are byte sequences: both are \<^typ>\<open>string\<close> here
  (a list of 8-bit characters). With \<open>Char_ord\<close> and \<open>List_Lexorder\<close> the order on
  \<^typ>\<open>string\<close> is the bytewise lexicographic order, which is Go's \<open><\<close> on strings.
\<close>

text \<open>A Go \<open>error\<close> value, identified by its message (\<open>errors.New\<close>).\<close>

datatype error = errors_New string

text \<open>A call either returns its results or panics (a run-time crash of the goroutine).\<close>

datatype 'a outcome = Returned (returned: 'a) | Panicked

text \<open>
  The dynamic values that \<open>json.Unmarshal\<close> stores into an \<open>interface{}\<close>:
  \<open>nil\<close>, \<open>bool\<close>, \<open>float64\<close> (its IEEE bits), \<open>string\<close>, \<open>[]interface{}\<close> and
  \<open>map[string]interface{}\<close> (the entries of the map, one per key).
\<close>

datatype iface =
    VNil
  | VBool bool
  | VFloat64 "64 word"
  | VString string
  | VSlice "iface list"
  | VMap "(string \<times> iface) list"

text \<open>
  A \<open>map[string]string\<close> is the list of its entries, with one entry per key. The order
  of the list is the order in which a \<open>range\<close> loop visits the entries; Go leaves that
  order unspecified, so results that matter are shown not to depend on it.
  \<open>m[k] = v\<close> is \<^const>\<open>AList.update\<close>.
\<close>

type_synonym strmap = "(string \<times> string) list"

section \<open>Library functions, after the Go standard library\<close>

text \<open>\<open>strings.HasSuffix\<close>: \<open>len(s) >= len(suffix) && s[len(s)-len(suffix):] == suffix\<close>.\<close>

definition strings_HasSuffix :: "string \<Rightarrow> string \<Rightarrow> bool" where
  "strings_HasSuffix s suf \<longleftrightarrow>
     length s \<ge> length suf \<and> drop (length s - length suf) s = suf"

text \<open>\<open>strings.TrimSuffix\<close>: \<open>s\<close> without the suffix when it has it, else \<open>s\<close>.\<close>

definition strings_TrimSuffix :: "string \<Rightarrow> string \<Rightarrow> string" where
  "strings_TrimSuffix s suf =
     (if strings_HasSuffix s suf then take (length s - length suf) s else s)"

text \<open>
  \<open>filepath.Ext\<close> (Unix separator): scanning from the end, up to the last \<open>/\<close>, the
  suffix that starts at the first dot met; empty when there is none. The argument
  \<open>Suc i\<close> of the loop stands for Go's index \<open>i\<close>, so that \<open>i >= 0\<close> needs no negative number.
\<close>

fun Ext_loop :: "string \<Rightarrow> nat \<Rightarrow> string" where
  "Ext_loop path 0 = []"
| "Ext_loop path (Suc i) =
     (if path ! i = CHR ''/'' then []
      else if path ! i = CHR ''.'' then drop i path
      else Ext_loop path i)"

definition filepath_Ext :: "string \<Rightarrow> string" where
  "filepath_Ext path = Ext_loop path (length path)"

text \<open>\<open>strings.Join\<close>.\<close>

fun strings_Join :: "string list \<Rightarrow> string \<Rightarrow> string" where
  "strings_Join [] sep = []"
| "strings_Join [x] sep = x"
| "strings_Join (x # y # ys) sep = x @ sep @ strings_Join (y # ys) sep"

text \<open>
  \<open>html.EscapeString\<close>: the replacer of package \<open>html\<close> rewrites the five characters
  \<open>&\<close>, \<open>'\<close>, \<open><\<close>, \<open>>\<close> and the double quote, and copies every other byte.
\<close>

definition htmlEscaper :: "char \<Rightarrow> string" where
  \<open>htmlEscaper c =
     (if c = CHR ''&'' then ''&amp;''
      else if c = CHR 0x27 then ''&#39;''
      else if c = CHR ''<'' then ''&lt;''
      else if c = CHR ''>'' then ''&gt;''
      else if c = CHR 0x22 then ''&#34;''
      else [c])\<close>

definition html_EscapeString :: "string \<Rightarrow> string" where
  "html_EscapeString s = concat (map htmlEscaper s)"

section \<open>The mapping from asset names to served names\<close>

record StaticMap =
  innerMap :: "string \<rightharpoonup> iface"
  useMinified :: bool

definition getStringFromMap :: "(string \<rightharpoonup> iface) \<Rightarrow> string \<Rightarrow> string \<times> bool" where
  "getStringFromMap amap defaultValue =
     (case amap defaultValue of
        Some v \<Rightarrow> (case v of VString val \<Rightarrow> (val, True) | _ \<Rightarrow> (defaultValue, False))
      | None \<Rightarrow> (defaultValue, False))"

definition toMinifiedName :: "string \<Rightarrow> string" where
  "toMinifiedName name =
     (let ext = filepath_Ext name in strings_TrimSuffix name ext @ ''.min'' @ ext)"

definition StaticMap_Get :: "StaticMap \<Rightarrow> string \<Rightarrow> string" where
  "StaticMap_Get sm name =
     (let direct = fst (getStringFromMap (innerMap sm) name) in
      if StaticMap.useMinified sm then
        (case getStringFromMap (innerMap sm) (toMinifiedName name) of
           (val, ok) \<Rightarrow> if ok then val else direct)
      else direct)"

section \<open>Attribute lists and their rendering\<close>

text \<open>
  The loop \<open>for i := 0; i < length; i += 2\<close> of \<open>attrSliceToMap\<close>. It runs only on a
  slice of even length, so \<open>attrsSlice[i+1]\<close> is in range whenever \<open>i\<close> is.
\<close>

function attrSlice_loop :: "string list \<Rightarrow> nat \<Rightarrow> strmap \<Rightarrow> strmap" where
  "attrSlice_loop attrsSlice i attrMap =
     (if i < length attrsSlice
      then attrSlice_loop attrsSlice (i + 2)
             (AList.update (attrsSlice ! i) (attrsSlice ! (i + 1)) attrMap)
      else attrMap)"
  by pat_completeness auto
termination
  by (relation "measure (\<lambda>(attrsSlice, i, attrMap). length attrsSlice - i)") auto

declare attrSlice_loop.simps [simp del]

definition attrSliceToMap :: "string list \<Rightarrow> error + strmap" where
  "attrSliceToMap attrsSlice =
     (if length attrsSlice mod 2 \<noteq> 0
      then Inl (errors_New ''ScriptTag attributes don't form pairs'')
      else Inr (attrSlice_loop attrsSlice 0 []))"

text \<open>\<open>fmt.Sprintf(`%s="%s"`, html.EscapeString(key), html.EscapeString(value))\<close>.\<close>

definition attrString :: "string \<times> string \<Rightarrow> string" where
  \<open>attrString kv = html_EscapeString (fst kv) @ ''="'' @ html_EscapeString (snd kv) @ ''"''\<close>

text \<open>
  \<open>sort.StringSlice(attrSlice).Sort()\<close> leaves the slice in ascending order; on strings
  equal elements are identical, so the result is the one sorted arrangement, \<^const>\<open>sort\<close>.
\<close>

definition mapToAttrs :: "strmap \<Rightarrow> string" where
  "mapToAttrs attrMap = strings_Join (sort (map attrString attrMap)) '' ''"

definition updateMap :: "strmap \<Rightarrow> strmap \<Rightarrow> strmap" where
  "updateMap updated updating = fold (\<lambda>(key, val). AList.update key val) updating updated"

section \<open>The resolver\<close>

text \<open>
  \<open>Loader\<close> is \<open>func(string) ([]byte, error)\<close>. \<open>StaticMapper\<close> is the interface with
  the one method \<open>Get(string) string\<close>: a value of it is its \<open>Get\<close>. \<open>MappingBuilder\<close> is
  \<open>func() (StaticMapper, error)\<close>; \<open>NewStatic\<close> calls it once, so a builder is the outcome
  of that call. Function and interface fields may be \<open>nil\<close>: they are options.
\<close>

type_synonym Loader = "string \<Rightarrow> error + string"

type_synonym StaticMapper = "string \<Rightarrow> string"

type_synonym MappingBuilder = "(StaticMapper option \<times> error option) outcome"

record Static =
  urlPrefix :: string
  manifestPath :: string
  manifestLoader :: "Loader option"
  useMinified :: bool
  mapping :: "StaticMapper option"
  mappingBuilder :: "MappingBuilder option"

text \<open>
  \<open>createMapping\<close>. \<open>json.Unmarshal\<close> into an \<open>interface{}\<close> is a parameter: it returns
  an error or the decoded value. The type assertion \<open>manifest.(map[string]interface{})\<close>
  has no \<open>ok\<close> result, so it panics on every value that is not a map.
\<close>

definition createMapping ::
  "(string \<Rightarrow> error + iface) \<Rightarrow> Loader option \<Rightarrow> string \<Rightarrow> bool \<Rightarrow> MappingBuilder" where
  "createMapping json_Unmarshal load path minified =
     (case load of
        Some ld \<Rightarrow>
          (case ld path of
             Inl err \<Rightarrow> Returned (None, Some err)
           | Inr content \<Rightarrow>
               (case json_Unmarshal content of
                  Inl err \<Rightarrow> Returned (None, Some err)
                | Inr manifest \<Rightarrow>
                    (case manifest of
                       VMap entries \<Rightarrow>
                         Returned (Some (StaticMap_Get
                           \<lparr>innerMap = map_of entries, useMinified = minified\<rparr>), None)
                     | _ \<Rightarrow> Panicked)))
      | None \<Rightarrow>
          Returned (Some (StaticMap_Get \<lparr>innerMap = Map.empty, useMinified = minified\<rparr>), None))"

text \<open>
  An \<open>optionSetter\<close> is a \<open>func(*Static)\<close>; the type is unexported, so the values a
  caller can pass are the closures the three \<open>With...\<close> functions return. Each is
  named by its constructor and \<open>runOption\<close> runs it.
\<close>

datatype optionSetter =
    WithManifestLoader "Loader option"
  | WithMappingBuilder "MappingBuilder option"
  | WithUseMinified bool

fun runOption :: "optionSetter \<Rightarrow> Static \<Rightarrow> Static" where
  "runOption (WithManifestLoader load) st = st\<lparr>manifestLoader := load\<rparr>"
| "runOption (WithMappingBuilder builder) st = st\<lparr>mappingBuilder := builder\<rparr>"
| "runOption (WithUseMinified minified) st = st\<lparr>useMinified := minified\<rparr>"

text \<open>
  The first half of \<open>NewStatic\<close>: the prefix gets a trailing slash when it has none, the
  struct is filled (\<open>ioutil.ReadFile\<close>, the file system, is a parameter) and the
  options run in order.
\<close>

definition configure :: "Loader \<Rightarrow> string \<Rightarrow> string \<Rightarrow> optionSetter list \<Rightarrow> Static" where
  "configure ioutil_ReadFile prefix path options =
     (let prefix = (if \<not> strings_HasSuffix prefix ''/'' then prefix @ ''/'' else prefix);
          static = \<lparr>urlPrefix = prefix, manifestPath = path,
                    manifestLoader = Some ioutil_ReadFile, useMinified = False,
                    mapping = None, mappingBuilder = None\<rparr>
      in fold runOption options static)"

text \<open>
  \<open>NewStatic\<close> returns \<open>(*Static, error)\<close>: \<open>(nil, err)\<close> when the builder fails. The
  default builder reads the loader and the flag the options have left in the struct.
\<close>

definition NewStatic ::
  "(string \<Rightarrow> error + iface) \<Rightarrow> Loader \<Rightarrow> string \<Rightarrow> string \<Rightarrow> optionSetter list
     \<Rightarrow> (Static option \<times> error option) outcome" where
  "NewStatic json_Unmarshal ioutil_ReadFile prefix path options =
     (let static = configure ioutil_ReadFile prefix path options;
          builder = (case mappingBuilder static of
                       None \<Rightarrow> createMapping json_Unmarshal (manifestLoader static)
                                 path (Static.useMinified static)
                     | Some b \<Rightarrow> b);
          static = static\<lparr>mappingBuilder := Some builder\<rparr>
      in case builder of
           Panicked \<Rightarrow> Panicked
         | Returned (m, err) \<Rightarrow>
             (case err of
                Some e \<Rightarrow> Returned (None, Some e)
              | None \<Rightarrow> Returned (Some (static\<lparr>mapping := m\<rparr>), None)))"

text \<open>
  \<open>ScriptTag\<close> and \<open>LinkTag\<close> return \<open>(template.HTML, error)\<close>. Calling \<open>Get\<close> on a
  \<open>nil\<close> mapping panics. The attribute map each of them renders is named on its own.
\<close>

definition scriptAttrMap :: "string \<Rightarrow> strmap \<Rightarrow> strmap" where
  "scriptAttrMap src attrMap =
     AList.update ''src'' src (updateMap [(''type'', ''text/javascript'')] attrMap)"

definition ScriptTag :: "Static \<Rightarrow> string \<Rightarrow> string list \<Rightarrow> (string \<times> error option) outcome" where
  "ScriptTag st path attrs =
     (case attrSliceToMap attrs of
        Inl err \<Rightarrow> Returned ([], Some err)
      | Inr attrMap \<Rightarrow>
          (case mapping st of
             None \<Rightarrow> Panicked
           | Some Get \<Rightarrow>
               Returned (''<script '' @ mapToAttrs (scriptAttrMap (urlPrefix st @ Get path) attrMap)
                           @ ''></script>'', None)))"

definition linkAttrMap :: "string \<Rightarrow> strmap \<Rightarrow> strmap" where
  "linkAttrMap href attrMap =
     AList.update ''href'' href
       (updateMap [(''type'', ''text/css''), (''rel'', ''stylesheet'')] attrMap)"

definition LinkTag :: "Static \<Rightarrow> string \<Rightarrow> string list \<Rightarrow> (string \<times> error option) outcome" where
  "LinkTag st path attrs =
     (case attrSliceToMap attrs of
        Inl err \<Rightarrow> Returned ([], Some err)
      | Inr attrMap \<Rightarrow>
          (case mapping st of
             None \<Rightarrow> Panicked
           | Some Get \<Rightarrow>
               Returned (''<link '' @ mapToAttrs (linkAttrMap (urlPrefix st @ Get path) attrMap)
                           @ ''/>'', None)))"

text \<open>
  \<open>Static\<close>, the method: the prefix and a \<open>nil\<close> error. (The second revision of
  \<open>asset.go\<close> in the file returns the prefix alone.)
\<close>

definition Static_Static :: "Static \<Rightarrow> string \<times> error option" where
  "Static_Static st = (urlPrefix st, None)"

section \<open>Subresource integrity\<close>

text \<open>
  The source under \<open>src/\<close> has no SRI code: \<open>asset_test.go\<close> calls \<open>WithUseSri\<close> and
  expects \<open>integrity\<close> and \<open>crossorigin\<close> attributes, but \<open>asset.go\<close> has neither the
  option nor the hasher. What follows is written from the specification.
\<close>

text \<open>Modelled from the spec: the integrity hasher is not in the source (only its tests are). SHA-256 after FIPS 180-4 on 32-bit words, held as naturals below \<open>2^32\<close>; this is addition modulo \<open>2^32\<close>.\<close>

definition add32 :: "nat \<Rightarrow> nat \<Rightarrow> nat" where
  "add32 x y = (x + y) mod 2 ^ 32"

text \<open>Modelled from the spec: SHA-256 of the missing integrity hasher; rotation of a 32-bit word to the right by \<open>n\<close> bits.\<close>

definition rotr32 :: "nat \<Rightarrow> nat \<Rightarrow> nat" where
  "rotr32 n x = x div 2 ^ n + (x mod 2 ^ n) * 2 ^ (32 - n)"

text \<open>Modelled from the spec: SHA-256 of the missing integrity hasher; bitwise complement of a 32-bit word.\<close>

definition not32 :: "nat \<Rightarrow> nat" where
  "not32 x = 2 ^ 32 - 1 - x"

text \<open>Modelled from the spec: SHA-256 of the missing integrity hasher; the function \<open>Ch\<close>.\<close>

definition Ch :: "nat \<Rightarrow> nat \<Rightarrow> nat \<Rightarrow> nat" where
  "Ch x y z = (x AND y) XOR (not32 x AND z)"

text \<open>Modelled from the spec: SHA-256 of the missing integrity hasher; the function \<open>Maj\<close>.\<close>

definition Maj :: "nat \<Rightarrow> nat \<Rightarrow> nat \<Rightarrow> nat" where
  "Maj x y z = (x AND y) XOR (x AND z) XOR (y AND z)"

text \<open>Modelled from the spec: SHA-256 of the missing integrity hasher; the function written with a capital sigma and index 0.\<close>

definition Sigma0 :: "nat \<Rightarrow> nat" where
  "Sigma0 x = rotr32 2 x XOR rotr32 13 x XOR rotr32 22 x"

text \<open>Modelled from the spec: SHA-256 of the missing integrity hasher; the function written with a capital sigma and index 1.\<close>

definition Sigma1 :: "nat \<Rightarrow> nat" where
  "Sigma1 x = rotr32 6 x XOR rotr32 11 x XOR rotr32 25 x"

text \<open>Modelled from the spec: SHA-256 of the missing integrity hasher; the function written with a small sigma and index 0.\<close>

definition sigma0 :: "nat \<Rightarrow> nat" where
  "sigma0 x = rotr32 7 x XOR rotr32 18 x XOR x div 2 ^ 3"

text \<open>Modelled from the spec: SHA-256 of the missing integrity hasher; the function written with a small sigma and index 1.\<close>

definition sigma1 :: "nat \<Rightarrow> nat" where
  "sigma1 x = rotr32 17 x XOR rotr32 19 x XOR x div 2 ^ 10"

text \<open>Modelled from the spec: SHA-256 of the missing integrity hasher; the 64 round constants.\<close>

definition K256 :: "nat list" where
  "K256 = [
   0x428a2f98, 0x71374491, 0xb5c0fbcf, 0xe9b5dba5, 0x3956c25b, 0x59f111f1, 0x923f82a4, 0xab1c5ed5,
   0xd807aa98, 0x12835b01, 0x243185be, 0x550c7dc3, 0x72be5d74, 0x80deb1fe, 0x9bdc06a7, 0xc19bf174,
   0xe49b69c1, 0xefbe4786, 0x0fc19dc6, 0x240ca1cc, 0x2de92c6f, 0x4a7484aa, 0x5cb0a9dc, 0x76f988da,
   0x983e5152, 0xa831c66d, 0xb00327c8, 0xbf597fc7, 0xc6e00bf3, 0xd5a79147, 0x06ca6351, 0x14292967,
   0x27b70a85, 0x2e1b2138, 0x4d2c6dfc, 0x53380d13, 0x650a7354, 0x766a0abb, 0x81c2c92e, 0x92722c85,
   0xa2bfe8a1, 0xa81a664b, 0xc24b8b70, 0xc76c51a3, 0xd192e819, 0xd6990624, 0xf40e3585, 0x106aa070,
   0x19a4c116, 0x1e376c08, 0x2748774c, 0x34b0bcb5, 0x391c0cb3, 0x4ed8aa4a, 0x5b9cca4f, 0x682e6ff3,
   0x748f82ee, 0x78a5636f, 0x84c87814, 0x8cc70208, 0x90befffa, 0xa4506ceb, 0xbef9a3f7, 0xc67178f2]"

text \<open>Modelled from the spec: SHA-256 of the missing integrity hasher; the initial hash value.\<close>

definition H256 :: "nat list" where
  "H256 = [0x6a09e667, 0xbb67ae85, 0x3c6ef372, 0xa54ff53a,
           0x510e527f, 0x9b05688c, 0x1f83d9ab, 0x5be0cd19]"

text \<open>Modelled from the spec: SHA-256 of the missing integrity hasher; the eight bytes of a 64-bit length, most significant first.\<close>

definition be64 :: "nat \<Rightarrow> nat list" where
  "be64 n = [n div 2 ^ 56 mod 256, n div 2 ^ 48 mod 256, n div 2 ^ 40 mod 256,
             n div 2 ^ 32 mod 256, n div 2 ^ 24 mod 256, n div 2 ^ 16 mod 256,
             n div 2 ^ 8 mod 256, n mod 256]"

text \<open>Modelled from the spec: SHA-256 of the missing integrity hasher; padding of the message bytes: the byte \<open>0x80\<close>, zero bytes up to 56 modulo 64, and the length in bits.\<close>

definition sha256_pad :: "nat list \<Rightarrow> nat list" where
  "sha256_pad bs =
     bs @ [128] @ replicate ((119 - length bs mod 64) mod 64) 0 @ be64 (8 * length bs mod 2 ^ 64)"

text \<open>Modelled from the spec: SHA-256 of the missing integrity hasher; the bytes read as big-endian 32-bit words.\<close>

fun be32 :: "nat list \<Rightarrow> nat list" where
  "be32 (a # b # c # d # rest) = (((a * 256 + b) * 256 + c) * 256 + d) # be32 rest"
| "be32 _ = []"

text \<open>Modelled from the spec: SHA-256 of the missing integrity hasher; the words cut into blocks of sixteen.\<close>

fun sha256_blocks :: "nat list \<Rightarrow> nat list list" where
  "sha256_blocks (w0 # w1 # w2 # w3 # w4 # w5 # w6 # w7 # w8 # w9 # w10 # w11 # w12 # w13 # w14 # w15 # ws) =
     [w0, w1, w2, w3, w4, w5, w6, w7, w8, w9, w10, w11, w12, w13, w14, w15] # sha256_blocks ws"
| "sha256_blocks _ = []"

text \<open>Modelled from the spec: SHA-256 of the missing integrity hasher; the message schedule, extended word by word from index \<open>t\<close> to 63.\<close>

function sha256_schedule :: "nat \<Rightarrow> nat list \<Rightarrow> nat list" where
  "sha256_schedule t w =
     (if t < 64
      then sha256_schedule (t + 1)
             (w @ [add32 (add32 (add32 (sigma1 (w ! (t - 2))) (w ! (t - 7)))
                                (sigma0 (w ! (t - 15)))) (w ! (t - 16))])
      else w)"
  by pat_completeness auto
termination
  by (relation "measure (\<lambda>(t, w). 64 - t)") auto

declare sha256_schedule.simps [simp del]

text \<open>Modelled from the spec: SHA-256 of the missing integrity hasher; one round on the eight working variables, with its constant and its schedule word.\<close>

fun sha256_round :: "nat list \<Rightarrow> nat \<times> nat \<Rightarrow> nat list" where
  "sha256_round [a, b, c, d, e, f, g, h] (k, w) =
     (let t1 = add32 (add32 (add32 (add32 h (Sigma1 e)) (Ch e f g)) k) w;
          t2 = add32 (Sigma0 a) (Maj a b c)
      in [add32 t1 t2, a, b, c, add32 d t1, e, f, g])"
| "sha256_round s _ = s"

text \<open>Modelled from the spec: SHA-256 of the missing integrity hasher; the 64 rounds on one block, added to the hash value so far.\<close>

definition sha256_compress :: "nat list \<Rightarrow> nat list \<Rightarrow> nat list" where
  "sha256_compress hs m = map2 add32 hs (foldl sha256_round hs (zip K256 (sha256_schedule 16 m)))"

text \<open>Modelled from the spec: SHA-256 of the missing integrity hasher; the four bytes of a 32-bit word, most significant first.\<close>

definition word_bytes :: "nat \<Rightarrow> nat list" where
  "word_bytes n = [n div 2 ^ 24, n div 2 ^ 16 mod 256, n div 2 ^ 8 mod 256, n mod 256]"

text \<open>Modelled from the spec: SHA-256 over the full byte content, the digest as 32 bytes; the integrity hasher is not in the source.\<close>

definition sha256 :: "string \<Rightarrow> nat list" where
  "sha256 content =
     concat (map word_bytes (foldl sha256_compress H256 (sha256_blocks (be32 (sha256_pad (map of_char content))))))"

text \<open>Modelled from the spec: the alphabet of the standard base64 encoding; the integrity hasher is not in the source.\<close>

definition encodeStd :: "string" where
  "encodeStd = ''ABCDEFGHIJKLMNOPQRSTUVWXYZabcdefghijklmnopqrstuvwxyz0123456789+/''"

text \<open>Modelled from the spec: standard base64 with padding, of the missing integrity hasher.\<close>

fun base64 :: "nat list \<Rightarrow> string" where
  "base64 (a # b # c # rest) =
     [encodeStd ! (a div 4), encodeStd ! (a mod 4 * 16 + b div 16),
      encodeStd ! (b mod 16 * 4 + c div 64), encodeStd ! (c mod 64)] @ base64 rest"
| "base64 [a, b] =
     [encodeStd ! (a div 4), encodeStd ! (a mod 4 * 16 + b div 16),
      encodeStd ! (b mod 16 * 4), CHR ''='']"
| "base64 [a] = [encodeStd ! (a div 4), encodeStd ! (a mod 4 * 16), CHR ''='', CHR ''='']"
| "base64 [] = []"

text \<open>Modelled from the spec: the integrity descriptor \<open>"sha256-" + standard-base64(digest)\<close>; the hasher is not in the source.\<close>

definition Hash :: "string \<Rightarrow> string" where
  "Hash content = ''sha256-'' @ base64 (sha256 content)"

text \<open>Modelled from the spec: the asset bytes of the SRI example, \<open>"the quick brown fox jumps over the lazy dog\n"\<close>.\<close>

definition fox :: string where
  "fox = ''the quick brown fox jumps over the lazy dog'' @ [CHR 0x0A]"

text \<open>Modelled from the spec: the \<open>integrity\<close> and \<open>crossorigin="anonymous"\<close> pairs that the tag renderer adds, after \<open>src\<close> or \<open>href\<close>, when SRI is enabled; this step is not in the source.\<close>

definition sriAttrMap :: "string \<Rightarrow> strmap \<Rightarrow> strmap" where
  "sriAttrMap content attrMap =
     AList.update ''crossorigin'' ''anonymous'' (AList.update ''integrity'' (Hash content) attrMap)"

text \<open>Modelled from the spec: \<open>ScriptTag\<close> with the SRI flag, which the source lacks: defaults, merge, \<open>src\<close>; if SRI is enabled the bytes of the resolved asset are read (the test reads the file named by the resolved URL) and a failure to read aborts the call with that error and no markup.\<close>

definition ScriptTagSri ::
  "bool \<Rightarrow> Loader \<Rightarrow> Static \<Rightarrow> string \<Rightarrow> string list \<Rightarrow> (string \<times> error option) outcome" where
  "ScriptTagSri useSri readAsset st path attrs =
     (case attrSliceToMap attrs of
        Inl err \<Rightarrow> Returned ([], Some err)
      | Inr attrMap \<Rightarrow>
          (case mapping st of
             None \<Rightarrow> Panicked
           | Some Get \<Rightarrow>
               (let src = urlPrefix st @ Get path;
                    attrMap = scriptAttrMap src attrMap
                in if useSri then
                     (case readAsset src of
                        Inl err \<Rightarrow> Returned ([], Some err)
                      | Inr content \<Rightarrow>
                          Returned (''<script '' @ mapToAttrs (sriAttrMap content attrMap)
                                      @ ''></script>'', None))
                   else Returned (''<script '' @ mapToAttrs attrMap @ ''></script>'', None))))"

text \<open>Modelled from the spec: \<open>LinkTag\<close> with the SRI flag, which the source lacks; the same flow as for the script tag, with \<open>href\<close>.\<close>

definition LinkTagSri ::
  "bool \<Rightarrow> Loader \<Rightarrow> Static \<Rightarrow> string \<Rightarrow> string list \<Rightarrow> (string \<times> error option) outcome" where
  "LinkTagSri useSri readAsset st path attrs =
     (case attrSliceToMap attrs of
        Inl err \<Rightarrow> Returned ([], Some err)
      | Inr attrMap \<Rightarrow>
          (case mapping st of
             None \<Rightarrow> Panicked
           | Some Get \<Rightarrow>
               (let href = urlPrefix st @ Get path;
                    attrMap = linkAttrMap href attrMap
                in if useSri then
                     (case readAsset href of
                        Inl err \<Rightarrow> Returned ([], Some err)
                      | Inr content \<Rightarrow>
                          Returned (''<link '' @ mapToAttrs (sriAttrMap content attrMap)
                                      @ ''/>'', None))
                   else Returned (''<link '' @ mapToAttrs attrMap @ ''/>'', None))))"

text \<open>Modelled from the spec: the resolver of the SRI tests, with prefix \<open>/\<close> and a manifest that maps the asset name to the file \<open>tmp/asset-sri\<close>.\<close>

definition sri_Static :: Static where
  "sri_Static =
     \<lparr>urlPrefix = ''/'', manifestPath = ''data/manifest.json'',
      manifestLoader = None, useMinified = False,
      mapping = Some (StaticMap_Get
        \<lparr>innerMap = map_of [(''asset-sri'', VString ''tmp/asset-sri'')], useMinified = False\<rparr>),
      mappingBuilder = None\<rparr>"

text \<open>Modelled from the spec: the file system of the SRI tests, holding the example bytes in the one file \<open>/tmp/asset-sri\<close>.\<close>

definition sri_readAsset :: Loader where
  "sri_readAsset name =
     (if name = ''/tmp/asset-sri'' then Inr fox else Inl (errors_New ''no such file''))"

section \<open>Notions used to state the properties\<close>

text \<open>The name and value pairs of an attribute slice, in order.\<close>

fun pairs :: "string list \<Rightarrow> (string \<times> string) list" where
  "pairs (k # v # rest) = (k, v) # pairs rest"
| "pairs _ = []"

text \<open>
  A rendered attribute \<open>x\<close> has the name \<open>name\<close>: it starts with the name, an equals
  sign and a double quote.
\<close>

definition attr_named :: "string \<Rightarrow> string \<Rightarrow> bool" where
  \<open>attr_named name x \<longleftrightarrow> take (length name + 2) x = name @ ''="''\<close>

text \<open>A string ends with exactly one slash.\<close>

definition one_trailing_slash :: "string \<Rightarrow> bool" where
  "one_trailing_slash s \<longleftrightarrow>
     (case rev s of
        [] \<Rightarrow> False
      | c # rest \<Rightarrow> c = CHR ''/'' \<and> (case rest of [] \<Rightarrow> True | d # _ \<Rightarrow> d \<noteq> CHR ''/''))"

text \<open>
  What \<open>json.Unmarshal\<close> stores into an \<open>interface{}\<close> for the few byte sequences the
  examples use: two objects, an array, \<open>null\<close>, the number \<open>1\<close> (the \<open>float64\<close> one), a
  string, and the text \<open>garbage\<close>, which it rejects. It is a table, not a decoder: on
  any other input it answers with an error that the real decoder need not give, and no
  statement below uses it there.
\<close>

definition sample_Unmarshal :: "string \<Rightarrow> error + iface" where
  \<open>sample_Unmarshal content =
     (if content = ''{}'' then Inr (VMap [])
      else if content = ''[]'' then Inr (VSlice [])
      else if content = ''null'' then Inr VNil
      else if content = ''1'' then Inr (VFloat64 0x3FF0000000000000)
      else if content = ''"x"'' then Inr (VString ''x'')
      else if content = ''{"js/other.min.js":"dist/other-1234.min.js","js/other.js":"dist/other-1234.js"}''
        then Inr (VMap [(''js/other.min.js'', VString ''dist/other-1234.min.js''),
                        (''js/other.js'', VString ''dist/other-1234.js'')])
      else if content = ''garbage''
        then Inl (errors_New ''invalid character 'g' looking for beginning of value'')
      else Inl (errors_New ''input outside the table''))\<close>

text \<open>
  The resolver that \<open>NewStatic("/static", "data/manifest.json", ...)\<close> builds from the
  manifest \<open>{}\<close> with minified names switched on, as the tests of the package do.
\<close>

definition sample_Static :: Static where
  "sample_Static =
     \<lparr>urlPrefix = ''/static/'', manifestPath = ''data/manifest.json'',
      manifestLoader = Some (\<lambda>name. Inr ''{}''), useMinified = True,
      mapping = Some (StaticMap_Get \<lparr>innerMap = Map.empty, useMinified = True\<rparr>),
      mappingBuilder = Some (Returned
        (Some (StaticMap_Get \<lparr>innerMap = Map.empty, useMinified = True\<rparr>), None))\<rparr>"

section \<open>Auxiliary facts\<close>

lemma toMinifiedName_example: "toMinifiedName ''js/other.js'' = ''js/other.min.js''"
  by (simp add: toMinifiedName_def filepath_Ext_def strings_TrimSuffix_def strings_HasSuffix_def)


lemma pairs_drop:
  "i + 1 < length xs \<Longrightarrow> pairs (drop i xs) = (xs ! i, xs ! (i + 1)) # pairs (drop (i + 2) xs)"
proof -
  assume a: "i + 1 < length xs"
  then have "drop i xs = xs ! i # drop (Suc i) xs"
    by (simp add: Cons_nth_drop_Suc)
  moreover from a have "drop (Suc i) xs = xs ! (Suc i) # drop (Suc (Suc i)) xs"
    by (simp add: Cons_nth_drop_Suc)
  ultimately show ?thesis by simp
qed

lemma attrSlice_loop_fold:
  "even (length xs - i) \<Longrightarrow>
   attrSlice_loop xs i m = fold (\<lambda>(key, val). AList.update key val) (pairs (drop i xs)) m"
proof (induction xs i m rule: attrSlice_loop.induct)
  case (1 xs i m)
  show ?case
  proof (cases "i < length xs")
    case True
    with "1.prems" have lt: "i + 1 < length xs"
      by (cases "length xs - i = 1") auto
    from "1.prems" lt have ev: "even (length xs - (i + 2))" by simp
    show ?thesis
      using "1.IH" [OF True ev] True
      by (subst attrSlice_loop.simps) (simp add: pairs_drop [OF lt])
  next
    case False
    then show ?thesis by (subst attrSlice_loop.simps) simp
  qed
qed

lemma map_of_fold_update:
  "map_of (fold (\<lambda>(key, val). AList.update key val) ps m) = map_of m ++ map_of (rev ps)"
proof (induction ps arbitrary: m)
  case Nil
  show ?case by simp
next
  case (Cons p ps)
  obtain k v where p: "p = (k, v)" by (cases p)
  show ?case
    by (simp add: p Cons.IH update_conv' fun_eq_iff map_add_def split: option.splits)
qed

lemma distinct_fold_update:
  "distinct (map fst m) \<Longrightarrow> distinct (map fst (fold (\<lambda>(key, val). AList.update key val) ps m))"
  by (induction ps arbitrary: m) (auto simp: distinct_update)

lemma attrSliceToMap_even:
  "even (length attrs) \<Longrightarrow>
   attrSliceToMap attrs = Inr (fold (\<lambda>(key, val). AList.update key val) (pairs attrs) [])"
  using attrSlice_loop_fold [of attrs 0 "[]"] by (simp add: attrSliceToMap_def)

lemma attrSliceToMap_odd:
  "odd (length attrs) \<Longrightarrow>
   attrSliceToMap attrs = Inl (errors_New ''ScriptTag attributes don't form pairs'')"
  by (simp add: attrSliceToMap_def odd_iff_mod_2_eq_one)

lemma length_pairs: "length (pairs xs) = length xs div 2"
  by (induction xs rule: pairs.induct) auto

lemma pairs_nth:
  "2 * j + 1 < length xs \<Longrightarrow> pairs xs ! j = (xs ! (2 * j), xs ! (2 * j + 1))"
proof (induction xs arbitrary: j rule: pairs.induct)
  case (1 k v rest)
  then show ?case by (cases j) auto
qed auto

lemma map_of_rev_last:
  "j < length ps \<Longrightarrow> ps ! j = (k, v) \<Longrightarrow>
   (\<forall>j'. j < j' \<and> j' < length ps \<longrightarrow> fst (ps ! j') \<noteq> k) \<Longrightarrow>
   map_of (rev ps) k = Some v"
proof (induction ps rule: rev_induct)
  case Nil
  then show ?case by simp
next
  case (snoc p ps)
  show ?case
  proof (cases "j = length ps")
    case True
    with snoc.prems show ?thesis by simp
  next
    case False
    with snoc.prems have lt: "j < length ps" by simp
    with snoc.prems have nth: "ps ! j = (k, v)" by (simp add: nth_append)
    have later: "\<forall>j'. j < j' \<and> j' < length ps \<longrightarrow> fst (ps ! j') \<noteq> k"
    proof (intro allI impI)
      fix j' assume j': "j < j' \<and> j' < length ps"
      with snoc.prems(3) have "fst ((ps @ [p]) ! j') \<noteq> k" by simp
      with j' show "fst (ps ! j') \<noteq> k" by (simp add: nth_append)
    qed
    from snoc.prems(3) [rule_format, of "length ps"] lt
    have "fst ((ps @ [p]) ! length ps) \<noteq> k" by simp
    then have "fst p \<noteq> k" by simp
    with snoc.IH [OF lt nth later] show ?thesis by (cases p) auto
  qed
qed

lemma map_of_rev_distinct: "distinct (map fst xs) \<Longrightarrow> map_of (rev xs) = map_of xs"
proof -
  assume d: "distinct (map fst xs)"
  then have "distinct (map fst (rev xs))" by (simp add: rev_map [symmetric])
  with d show ?thesis by (simp add: map_of_inject_set)
qed

lemma map_of_updateMap: "map_of (updateMap d a) = map_of d ++ map_of (rev a)"
  by (simp add: updateMap_def map_of_fold_update)

lemma updateMap_order_irrelevant:
  assumes "distinct (map fst a)" and "mset a = mset a'"
  shows "map_of (updateMap d a) = map_of (updateMap d a')"
proof -
  from assms(2) have "mset (map fst a) = mset (map fst a')" by (metis mset_map)
  with assms(1) have d': "distinct (map fst a')" by (metis mset_eq_imp_distinct_iff)
  from assms(2) have "set a = set a'" by (rule mset_eq_setD)
  with assms(1) d' have "map_of a = map_of a'" by (simp add: map_of_inject_set)
  with assms(1) d' show ?thesis by (simp add: map_of_updateMap map_of_rev_distinct)
qed

lemma distinct_updateMap: "distinct (map fst d) \<Longrightarrow> distinct (map fst (updateMap d a))"
  by (simp add: updateMap_def distinct_fold_update)

lemma sort_map_cong:
  assumes "distinct (map fst m)" "distinct (map fst m')" "map_of m = map_of m'"
  shows "sort (map f m) = sort (map f m')"
proof -
  from assms have "set m = set m'" by (simp add: map_of_inject_set)
  moreover from assms have "distinct m" "distinct m'" by (auto simp: distinct_map)
  ultimately have "mset m = mset m'" by (simp add: set_eq_iff_mset_eq_distinct)
  then have eq: "mset (map f m) = mset (map f m')" by simp
  have "sort (map f m') = sort (map f m)"
  proof (rule properties_for_sort)
    show "mset (sort (map f m)) = mset (map f m')" using eq by simp
    show "sorted (sort (map f m))" by simp
  qed
  then show ?thesis by (rule sym)
qed

lemma mapToAttrs_cong:
  "distinct (map fst m) \<Longrightarrow> distinct (map fst m') \<Longrightarrow> map_of m = map_of m' \<Longrightarrow>
   mapToAttrs m = mapToAttrs m'"
  unfolding mapToAttrs_def by (drule (2) sort_map_cong [where f = attrString]) simp

lemma distinct_attrSliceToMap:
  "attrSliceToMap attrs = Inr attrMap \<Longrightarrow> distinct (map fst attrMap)"
proof -
  assume a: "attrSliceToMap attrs = Inr attrMap"
  then have "even (length attrs)"
    by (auto simp: attrSliceToMap_def split: if_splits)
  with a have "attrMap = fold (\<lambda>(key, val). AList.update key val) (pairs attrs) []"
    by (simp add: attrSliceToMap_even)
  then show ?thesis by (simp add: distinct_fold_update)
qed

lemma map_of_attrSliceToMap:
  "attrSliceToMap attrs = Inr attrMap \<Longrightarrow> map_of attrMap = map_of (rev (pairs attrs))"
proof -
  assume a: "attrSliceToMap attrs = Inr attrMap"
  then have "even (length attrs)"
    by (auto simp: attrSliceToMap_def split: if_splits)
  with a have "attrMap = fold (\<lambda>(key, val). AList.update key val) (pairs attrs) []"
    by (simp add: attrSliceToMap_even)
  then show ?thesis by (simp add: map_of_fold_update)
qed

lemma map_of_updateMap_distinct:
  "distinct (map fst a) \<Longrightarrow> map_of (updateMap d a) = map_of d ++ map_of a"
  by (simp add: map_of_updateMap map_of_rev_distinct)

lemma last_pair_value:
  assumes "even (length attrs)" and "2 * j + 1 < length attrs"
    and "\<forall>j'. j < j' \<and> 2 * j' + 1 < length attrs \<longrightarrow> attrs ! (2 * j') \<noteq> attrs ! (2 * j)"
  shows "map_of (rev (pairs attrs)) (attrs ! (2 * j)) = Some (attrs ! (2 * j + 1))"
proof -
  let ?ps = "pairs attrs"
  from assms(2) have j: "j < length ?ps" by (simp add: length_pairs)
  from assms(2) have nth: "?ps ! j = (attrs ! (2 * j), attrs ! (2 * j + 1))"
    by (rule pairs_nth)
  have later: "\<forall>j'. j < j' \<and> j' < length ?ps \<longrightarrow> fst (?ps ! j') \<noteq> attrs ! (2 * j)"
  proof (intro allI impI)
    fix j' assume a: "j < j' \<and> j' < length ?ps"
    with assms(1) have lt: "2 * j' + 1 < length attrs"
      by (auto simp: length_pairs elim!: evenE)
    with a assms(3) have "attrs ! (2 * j') \<noteq> attrs ! (2 * j)" by blast
    with lt show "fst (?ps ! j') \<noteq> attrs ! (2 * j)" by (simp add: pairs_nth)
  qed
  show ?thesis by (rule map_of_rev_last [OF j nth later])
qed

lemma distinct_scriptAttrMap:
  "distinct (map fst (scriptAttrMap src a))"
  by (simp add: scriptAttrMap_def distinct_update distinct_updateMap)

lemma distinct_linkAttrMap:
  "distinct (map fst (linkAttrMap href a))"
  by (simp add: linkAttrMap_def distinct_update distinct_updateMap)

lemma map_of_scriptAttrMap:
  "map_of (scriptAttrMap src a) = (map_of [(''type'', ''text/javascript'')] ++ map_of (rev a))(''src'' \<mapsto> src)"
  by (simp add: scriptAttrMap_def update_conv' map_of_updateMap)

lemma map_of_linkAttrMap:
  "map_of (linkAttrMap href a) =
     (map_of [(''type'', ''text/css''), (''rel'', ''stylesheet'')] ++ map_of (rev a))(''href'' \<mapsto> href)"
  by (simp add: linkAttrMap_def update_conv' map_of_updateMap)

lemma in_set_of_map_of:
  "distinct (map fst m) \<Longrightarrow> map_of m k = Some v \<Longrightarrow> attrString (k, v) \<in> set (map attrString m)"
  by (auto dest: map_of_SomeD)

lemmas tag_eval =
  ScriptTag_def LinkTag_def attrSliceToMap_def attrSlice_loop.simps scriptAttrMap_def
  linkAttrMap_def updateMap_def mapToAttrs_def attrString_def html_EscapeString_def
  htmlEscaper_def StaticMap_Get_def getStringFromMap_def toMinifiedName_def filepath_Ext_def
  strings_TrimSuffix_def strings_HasSuffix_def

lemma html_EscapeString_safe:
  \<open>CHR ''<'' \<notin> set (html_EscapeString s) \<and> CHR ''>'' \<notin> set (html_EscapeString s) \<and>
   CHR 0x22 \<notin> set (html_EscapeString s) \<and> CHR 0x27 \<notin> set (html_EscapeString s)\<close>
  by (induction s) (auto simp: html_EscapeString_def htmlEscaper_def)

lemma html_EscapeString_append:
  "html_EscapeString (s @ t) = html_EscapeString s @ html_EscapeString t"
  by (simp add: html_EscapeString_def)

lemma pairs_permuted_same_map:
  assumes "mset (pairs attrs) = mset (pairs attrs')" and "distinct (map fst (pairs attrs))"
  shows "map_of (rev (pairs attrs)) = map_of (rev (pairs attrs'))"
proof -
  from assms(1) have "mset (map fst (pairs attrs)) = mset (map fst (pairs attrs'))"
    by (metis mset_map)
  with assms(2) have d': "distinct (map fst (pairs attrs'))"
    by (metis mset_eq_imp_distinct_iff)
  from assms(1) have "set (pairs attrs) = set (pairs attrs')" by (rule mset_eq_setD)
  with assms(2) d' have "map_of (pairs attrs) = map_of (pairs attrs')"
    by (simp add: map_of_inject_set)
  with assms(2) d' show ?thesis by (simp add: map_of_rev_distinct)
qed

lemma tags_same_map:
  assumes "attrSliceToMap attrs = Inr a" "attrSliceToMap attrs' = Inr a'" "map_of a = map_of a'"
  shows "ScriptTag st path attrs = ScriptTag st path attrs' \<and>
         LinkTag st path attrs = LinkTag st path attrs'"
proof -
  have da: "distinct (map fst a)" "distinct (map fst a')"
    using assms(1,2) by (auto dest: distinct_attrSliceToMap)
  have s: "mapToAttrs (scriptAttrMap src a) = mapToAttrs (scriptAttrMap src a')" for src
    by (rule mapToAttrs_cong)
      (simp_all add: distinct_scriptAttrMap map_of_scriptAttrMap map_of_rev_distinct da assms(3))
  have l: "mapToAttrs (linkAttrMap href a) = mapToAttrs (linkAttrMap href a')" for href
    by (rule mapToAttrs_cong)
      (simp_all add: distinct_linkAttrMap map_of_linkAttrMap map_of_rev_distinct da assms(3))
  show ?thesis
    by (simp add: ScriptTag_def LinkTag_def assms(1,2) s l split: option.splits)
qed

lemma urlPrefix_runOption: "urlPrefix (runOption opt st) = urlPrefix st"
  by (cases opt) simp_all

lemma urlPrefix_fold_runOption: "urlPrefix (fold runOption options st) = urlPrefix st"
  by (induction options arbitrary: st) (simp_all add: urlPrefix_runOption)

lemma urlPrefix_configure:
  "urlPrefix (configure rf prefix path options) =
     (if strings_HasSuffix prefix ''/'' then prefix else prefix @ ''/'')"
  by (simp add: configure_def Let_def urlPrefix_fold_runOption)

lemma NewStatic_urlPrefix:
  "NewStatic dec rf prefix path options = Returned (Some st, err) \<Longrightarrow>
   urlPrefix st = urlPrefix (configure rf prefix path options)"
  by (auto simp: NewStatic_def Let_def split: outcome.splits option.splits prod.splits)

lemma HasSuffix_slash: "strings_HasSuffix s ''/'' \<longleftrightarrow> s \<noteq> [] \<and> last s = CHR ''/''"
proof (cases s rule: rev_cases)
  case Nil
  then show ?thesis by (simp add: strings_HasSuffix_def)
next
  case (snoc ys y)
  then show ?thesis by (auto simp: strings_HasSuffix_def)
qed

lemma HasSuffix_two_slashes:
  "strings_HasSuffix s ''//'' \<longleftrightarrow> (\<exists>t. s = t @ ''//'')"
proof
  assume "strings_HasSuffix s ''//''"
  then have "s = take (length s - 2) s @ ''//''"
    by (metis append_take_drop_id length_Cons list.size(3) strings_HasSuffix_def
        One_nat_def Suc_1)
  then show "\<exists>t. s = t @ ''//''" ..
next
  assume "\<exists>t. s = t @ ''//''"
  then show "strings_HasSuffix s ''//''" by (auto simp: strings_HasSuffix_def)
qed

lemma one_trailing_slash_iff:
  "one_trailing_slash s \<longleftrightarrow> strings_HasSuffix s ''/'' \<and> \<not> strings_HasSuffix s ''//''"
proof (cases s rule: rev_cases)
  case Nil
  then show ?thesis by (simp add: one_trailing_slash_def strings_HasSuffix_def)
next
  case (snoc ys y)
  note s = snoc
  show ?thesis
  proof (cases ys rule: rev_cases)
    case Nil
    with s show ?thesis by (auto simp: one_trailing_slash_def strings_HasSuffix_def)
  next
    case (snoc zs z)
    with s show ?thesis by (auto simp: one_trailing_slash_def strings_HasSuffix_def)
  qed
qed

lemma createMapping_cases:
  "(load path = Inl e \<longrightarrow> createMapping dec (Some load) path b = Returned (None, Some e)) \<and>
   (load path = Inr content \<and> dec content = Inl e
      \<longrightarrow> createMapping dec (Some load) path b = Returned (None, Some e)) \<and>
   (load path = Inr content \<and> dec content = Inr v \<and> (\<forall>entries. v \<noteq> VMap entries)
      \<longrightarrow> createMapping dec (Some load) path b = Panicked) \<and>
   (load path = Inr content \<and> dec content = Inr (VMap entries)
      \<longrightarrow> createMapping dec (Some load) path b =
            Returned (Some (StaticMap_Get \<lparr>innerMap = map_of entries, useMinified = b\<rparr>), None)) \<and>
   createMapping dec None path b =
     Returned (Some (StaticMap_Get \<lparr>innerMap = Map.empty, useMinified = b\<rparr>), None)"
  by (auto simp: createMapping_def split: iface.splits)

lemma replicate_numeral_unfold: "replicate (numeral k) x = x # replicate (pred_numeral k) x"
  by (simp add: numeral_eq_Suc)

lemma fox_padded:
  "be32 (sha256_pad (map of_char fox)) =
     [1952998688, 1903520099, 1797284466, 1870097952, 1718581280, 1786080624, 1931505526,
      1701978228, 1751457900, 1635416352, 1685022474, 2147483648, 0, 0, 0, 352]"
  by (simp add: fox_def sha256_pad_def be64_def replicate_numeral_unfold)

lemma fox_schedule:
  "sha256_schedule 16
     [1952998688, 1903520099, 1797284466, 1870097952, 1718581280, 1786080624, 1931505526,
      1701978228, 1751457900, 1635416352, 1685022474, 2147483648, 0, 0, 0, 352] =
     [1952998688, 1903520099, 1797284466, 1870097952, 1718581280, 1786080624, 1931505526,
      1701978228, 1751457900, 1635416352, 1685022474, 2147483648, 0, 0, 0, 352,
      1752660451, 3350177455, 3585097762, 691308378, 1163276935, 924933125, 3197913461,
      4047569870, 2960538162, 2589285182, 2031559199, 3425975741, 2893247078, 1475779592,
      2297275239, 1672344582, 396049815, 3564617108, 738427256, 2306318970, 2842691296,
      3562219012, 3909712192, 4273384702, 1364314885, 1133444638, 1291237450, 449802842,
      3378058745, 1328980027, 2915654058, 482498319, 3208174228, 2555793271, 3383538549,
      386444722, 2737886594, 2284458644, 3208225157, 2071213512, 1509364587, 3700771504,
      1003034137, 2046917416, 3535461359, 3085436626, 3898496685, 2190780075]"
  by (simp add: sha256_schedule.simps sigma0_def sigma1_def rotr32_def add32_def)

lemma fox_rounds:
  "foldl sha256_round H256 (zip K256
     [1952998688, 1903520099, 1797284466, 1870097952, 1718581280, 1786080624, 1931505526,
      1701978228, 1751457900, 1635416352, 1685022474, 2147483648, 0, 0, 0, 352,
      1752660451, 3350177455, 3585097762, 691308378, 1163276935, 924933125, 3197913461,
      4047569870, 2960538162, 2589285182, 2031559199, 3425975741, 2893247078, 1475779592,
      2297275239, 1672344582, 396049815, 3564617108, 738427256, 2306318970, 2842691296,
      3562219012, 3909712192, 4273384702, 1364314885, 1133444638, 1291237450, 449802842,
      3378058745, 1328980027, 2915654058, 482498319, 3208174228, 2555793271, 3383538549,
      386444722, 2737886594, 2284458644, 3208225157, 2071213512, 1509364587, 3700771504,
      1003034137, 2046917416, 3535461359, 3085436626, 3898496685, 2190780075]) =
     [2806627745, 1404574847, 99331398, 2624764940, 3052411763, 3263893062, 2188833922,
      4279542800]"
  by (simp add: H256_def K256_def Let_def Sigma0_def Sigma1_def Ch_def Maj_def not32_def
      rotr32_def add32_def)

lemma fox_digest:
  "sha256 fox =
     [17, 83, 164, 8, 15, 31, 203, 4, 66, 90, 160, 184, 65, 194, 177, 70, 6, 254, 109, 242,
      93, 144, 118, 210, 161, 250, 206, 45, 90, 245, 113, 41]"
  unfolding sha256_def fox_padded sha256_blocks.simps foldl.simps sha256_compress_def
    fox_schedule fox_rounds
  by (simp add: H256_def add32_def word_bytes_def)

lemma fox_Hash: "Hash fox = ''sha256-EVOkCA8fywRCWqC4QcKxRgb+bfJdkHbSofrOLVr1cSk=''"
  by (simp add: Hash_def fox_digest encodeStd_def)

lemma distinct_sriAttrMap: "distinct (map fst m) \<Longrightarrow> distinct (map fst (sriAttrMap content m))"
  by (simp add: sriAttrMap_def distinct_update)

lemma map_of_sriAttrMap:
  "map_of (sriAttrMap content m) =
     (map_of m)(''integrity'' \<mapsto> Hash content, ''crossorigin'' \<mapsto> ''anonymous'')"
  by (simp add: sriAttrMap_def update_conv')

lemma sri_attrs_rendered:
  assumes "distinct (map fst m)"
  shows "map_of (sriAttrMap content m) ''integrity'' = Some (''sha256-'' @ base64 (sha256 content)) \<and>
     map_of (sriAttrMap content m) ''crossorigin'' = Some ''anonymous'' \<and>
     attrString (''integrity'', ''sha256-'' @ base64 (sha256 content))
       \<in> set (map attrString (sriAttrMap content m)) \<and>
     attrString (''crossorigin'', ''anonymous'') \<in> set (map attrString (sriAttrMap content m))"
proof -
  have d: "distinct (map fst (sriAttrMap content m))"
    using assms by (rule distinct_sriAttrMap)
  have i: "map_of (sriAttrMap content m) ''integrity'' = Some (''sha256-'' @ base64 (sha256 content))"
    by (simp add: map_of_sriAttrMap Hash_def)
  have c: "map_of (sriAttrMap content m) ''crossorigin'' = Some ''anonymous''"
    by (simp add: map_of_sriAttrMap)
  from in_set_of_map_of [OF d i] in_set_of_map_of [OF d c] i c show ?thesis by blast
qed

lemma take_name_eq:
  \<open>CHR 0x22 \<notin> set e \<Longrightarrow> CHR 0x22 \<notin> set name \<Longrightarrow>
   take (length name + 2) (e @ ''="'' @ r) = name @ ''="'' \<longleftrightarrow> e = name\<close>
proof (induction e arbitrary: name)
  case Nil
  then show ?case by (cases name rule: list.exhaust; cases "tl name") auto
next
  case (Cons x e)
  show ?case
  proof (cases name)
    case Nil
    with Cons.prems show ?thesis by (cases e) auto
  next
    case (Cons a name')
    with Cons.prems Cons.IH [of name'] show ?thesis by auto
  qed
qed

lemma htmlEscaper_cases:
  \<open>htmlEscaper c = [c] \<and> c \<notin> {CHR ''&'', CHR 0x27, CHR ''<'', CHR ''>'', CHR 0x22} \<or>
   hd (htmlEscaper c) = CHR ''&'' \<and> htmlEscaper c \<noteq> [] \<and>
     c \<in> {CHR ''&'', CHR 0x27, CHR ''<'', CHR ''>'', CHR 0x22}\<close>
  by (simp add: htmlEscaper_def)

lemma html_EscapeString_eq_plain:
  \<open>set name \<inter> {CHR ''&'', CHR 0x27, CHR ''<'', CHR ''>'', CHR 0x22} = {} \<Longrightarrow>
   html_EscapeString k = name \<longleftrightarrow> k = name\<close>
proof (induction k arbitrary: name)
  case Nil
  then show ?case by (auto simp: html_EscapeString_def)
next
  case (Cons c k)
  have step: "html_EscapeString (c # k) = htmlEscaper c @ html_EscapeString k"
    by (simp add: html_EscapeString_def)
  show ?case
  proof (cases name)
    case Nil
    then show ?thesis using htmlEscaper_cases [of c] by (auto simp: step)
  next
    case (Cons a name')
    with Cons.prems have a: "a \<notin> {CHR ''&'', CHR 0x27, CHR ''<'', CHR ''>'', CHR 0x22}"
      and n': "set name' \<inter> {CHR ''&'', CHR 0x27, CHR ''<'', CHR ''>'', CHR 0x22} = {}"
      by auto
    from htmlEscaper_cases [of c] show ?thesis
    proof
      assume "htmlEscaper c = [c] \<and> c \<notin> {CHR ''&'', CHR 0x27, CHR ''<'', CHR ''>'', CHR 0x22}"
      then show ?thesis using Cons.IH [OF n'] Cons by (simp add: step)
    next
      assume s: "hd (htmlEscaper c) = CHR ''&'' \<and> htmlEscaper c \<noteq> [] \<and>
        c \<in> {CHR ''&'', CHR 0x27, CHR ''<'', CHR ''>'', CHR 0x22}"
      then obtain t where "htmlEscaper c = CHR ''&'' # t" by (cases "htmlEscaper c") auto
      with s a Cons show ?thesis by (auto simp: step)
    qed
  qed
qed

lemma html_EscapeString_plain:
  \<open>set s \<inter> {CHR ''&'', CHR 0x27, CHR ''<'', CHR ''>'', CHR 0x22} = {} \<Longrightarrow>
   html_EscapeString s = s\<close>
  by (simp add: html_EscapeString_eq_plain)

lemma attr_named_attrString:
  \<open>set name \<inter> {CHR ''&'', CHR 0x27, CHR ''<'', CHR ''>'', CHR 0x22} = {} \<Longrightarrow>
   attr_named name (attrString (k, v)) \<longleftrightarrow> k = name\<close>
proof -
  assume p: \<open>set name \<inter> {CHR ''&'', CHR 0x27, CHR ''<'', CHR ''>'', CHR 0x22} = {}\<close>
  then have q: "CHR 0x22 \<notin> set name" by auto
  have e: "CHR 0x22 \<notin> set (html_EscapeString k)" using html_EscapeString_safe [of k] by blast
  have \<open>attr_named name (attrString (k, v)) \<longleftrightarrow>
      take (length name + 2) (html_EscapeString k @ ''="'' @ (html_EscapeString v @ ''"'')) = name @ ''="''\<close>
    by (simp add: attr_named_def attrString_def)
  also have "\<dots> \<longleftrightarrow> html_EscapeString k = name" by (rule take_name_eq [OF e q])
  also have "\<dots> \<longleftrightarrow> k = name" by (rule html_EscapeString_eq_plain [OF p])
  finally show ?thesis .
qed

lemma filter_key_distinct:
  "distinct (map fst m) \<Longrightarrow> (k, v) \<in> set m \<Longrightarrow> filter (\<lambda>kv. fst kv = k) m = [(k, v)]"
proof (induction m)
  case Nil
  then show ?case by simp
next
  case (Cons p m)
  show ?case
  proof (cases "fst p = k")
    case True
    with Cons.prems have "p = (k, v)" by (cases p) (auto simp: image_iff)
    moreover from Cons.prems True have "filter (\<lambda>kv. fst kv = k) m = []"
      by (auto simp: filter_empty_conv image_iff)
    ultimately show ?thesis by simp
  next
    case False
    with Cons show ?thesis by auto
  qed
qed

lemma rendered_named_once:
  assumes p: \<open>set name \<inter> {CHR ''&'', CHR 0x27, CHR ''<'', CHR ''>'', CHR 0x22} = {}\<close>
    and d: "distinct (map fst m)" and v: "map_of m name = Some v"
  shows "filter (attr_named name) (sort (map attrString m)) = [attrString (name, v)]"
proof -
  have f: "attr_named name \<circ> attrString = (\<lambda>kv. fst kv = name)"
    by (rule ext) (simp add: attr_named_attrString [OF p, of "fst kv" "snd kv" for kv, simplified]
        split_beta)
  from v have "(name, v) \<in> set m" by (rule map_of_SomeD)
  with d have "filter (\<lambda>kv. fst kv = name) m = [(name, v)]" by (rule filter_key_distinct)
  then show ?thesis by (simp add: filter_sort filter_map f)
qed

section \<open>The package's tests, replayed\<close>

lemma TestMapToAttrs:
  \<open>mapToAttrs [(''name'', ''value''), (''"escape'', ''me<''), (''other'', ''attribute '')] =
   ''&#34;escape="me&lt;" name="value" other="attribute "''\<close>
  by (simp add: tag_eval)

lemma TestNewStatic:
  \<open>NewStatic sample_Unmarshal rf ''/static'' ''data/manifest.json''
     [WithManifestLoader (Some (\<lambda>name. Inr ''{}'')), WithUseMinified True] =
   Returned (Some sample_Static, None)\<close>
  by (simp add: NewStatic_def configure_def createMapping_def sample_Unmarshal_def sample_Static_def strings_HasSuffix_def)

lemma TestScriptTagParams:
  \<open>ScriptTag sample_Static ''js/other.js'' [''data-main'', ''some value'', ''defer'', ''defer''] =
   Returned (''<script data-main="some value" defer="defer" src="/static/js/other.js" type="text/javascript"></script>'', None)\<close>
  by (simp add: tag_eval sample_Static_def)

lemma TestLinkTagParams:
  \<open>LinkTag sample_Static ''css/other.css'' [''media'', ''some value'', ''title'', ''whatever''] =
   Returned (''<link href="/static/css/other.css" media="some value" rel="stylesheet" title="whatever" type="text/css"/>'', None)\<close>
  by (simp add: tag_eval sample_Static_def)

lemma TestScriptTagSri:
  \<open>ScriptTagSri True sri_readAsset sri_Static ''asset-sri'' [] =
     Returned (''<script crossorigin="anonymous" integrity="sha256-EVOkCA8fywRCWqC4QcKxRgb+bfJdkHbSofrOLVr1cSk=" src="/tmp/asset-sri" type="text/javascript"></script>'', None)\<close>
  by (simp add: ScriptTagSri_def sri_readAsset_def sri_Static_def sriAttrMap_def fox_Hash tag_eval)

lemma TestLinkTagSri:
  \<open>LinkTagSri True sri_readAsset sri_Static ''asset-sri'' [] =
     Returned (''<link crossorigin="anonymous" href="/tmp/asset-sri" integrity="sha256-EVOkCA8fywRCWqC4QcKxRgb+bfJdkHbSofrOLVr1cSk=" rel="stylesheet" type="text/css"/>'', None)\<close>
  by (simp add: LinkTagSri_def sri_readAsset_def sri_Static_def sriAttrMap_def fox_Hash tag_eval)

section \<open>The claims\<close>

text \<open>
  C1. \<open>StaticMap.Get\<close>: with minified mode on, a string stored under the minified
  variant of the name is returned. In every other case (minified mode off, the minified
  key absent, or its value not a string) the name is looked up directly: a string stored
  under it is returned, and otherwise the name itself comes back unchanged.
\<close>

theorem StaticMap_Get_resolution:
  "(StaticMap.useMinified sm \<and> innerMap sm (toMinifiedName name) = Some (VString v)
      \<longrightarrow> StaticMap_Get sm name = v) \<and>
   (\<not> (StaticMap.useMinified sm \<and> (\<exists>s. innerMap sm (toMinifiedName name) = Some (VString s)))
      \<longrightarrow> (innerMap sm name = Some (VString w) \<longrightarrow> StaticMap_Get sm name = w) \<and>
          ((\<forall>s. innerMap sm name \<noteq> Some (VString s)) \<longrightarrow> StaticMap_Get sm name = name))"
  by (auto simp: StaticMap_Get_def getStringFromMap_def split: option.splits iface.splits)

theorem StaticMap_Get_resolution_witness:
  "StaticMap_Get \<lparr>innerMap = map_of [(''js/other.min.js'', VString ''dist/other-1234.min.js''),
                                      (''js/other.js'', VString ''dist/other-1234.js'')],
                  useMinified = True\<rparr> ''js/other.js'' = ''dist/other-1234.min.js'' \<and>
   StaticMap_Get \<lparr>innerMap = map_of [(''js/name.min.js'', VBool True),
                                      (''js/name.js'', VString ''dist/name-1234.js'')],
                  useMinified = True\<rparr> ''js/name.js'' = ''dist/name-1234.js'' \<and>
   StaticMap_Get \<lparr>innerMap = map_of [(''js/other.min.js'', VString ''dist/other-1234.min.js'')],
                  useMinified = False\<rparr> ''js/other.js'' = ''js/other.js''"
proof -
  have min: "toMinifiedName ''js/other.js'' = ''js/other.min.js''"
    "toMinifiedName ''js/name.js'' = ''js/name.min.js''"
    by (simp_all add: toMinifiedName_def filepath_Ext_def strings_TrimSuffix_def
        strings_HasSuffix_def)
  have a: "StaticMap_Get \<lparr>innerMap = map_of [(''js/other.min.js'', VString ''dist/other-1234.min.js''),
                                      (''js/other.js'', VString ''dist/other-1234.js'')],
                  useMinified = True\<rparr> ''js/other.js'' = ''dist/other-1234.min.js''"
    using StaticMap_Get_resolution
      [of "\<lparr>innerMap = map_of [(''js/other.min.js'', VString ''dist/other-1234.min.js''),
                                      (''js/other.js'', VString ''dist/other-1234.js'')],
                  useMinified = True\<rparr>" "''js/other.js''" "''dist/other-1234.min.js''"]
    by (simp add: min)
  have b: "StaticMap_Get \<lparr>innerMap = map_of [(''js/name.min.js'', VBool True),
                                      (''js/name.js'', VString ''dist/name-1234.js'')],
                  useMinified = True\<rparr> ''js/name.js'' = ''dist/name-1234.js''"
    using StaticMap_Get_resolution
      [of "\<lparr>innerMap = map_of [(''js/name.min.js'', VBool True),
                                      (''js/name.js'', VString ''dist/name-1234.js'')],
                  useMinified = True\<rparr>" "''js/name.js''" _ "''dist/name-1234.js''"]
    by (simp add: min)
  have c: "StaticMap_Get \<lparr>innerMap = map_of [(''js/other.min.js'', VString ''dist/other-1234.min.js'')],
                  useMinified = False\<rparr> ''js/other.js'' = ''js/other.js''"
    using StaticMap_Get_resolution
      [of "\<lparr>innerMap = map_of [(''js/other.min.js'', VString ''dist/other-1234.min.js'')],
                  useMinified = False\<rparr>" "''js/other.js''"]
    by simp
  from a b c show ?thesis by blast
qed

text \<open>
  C2. With SRI enabled, every tag that is rendered without error holds, for the bytes
  read for the resolved asset, the attribute \<open>integrity\<close> with the value \<open>sha256-\<close>
  followed by the standard base64 encoding of the SHA-256 digest of those bytes, and the
  attribute \<open>crossorigin="anonymous"\<close>; for the bytes of the example the descriptor is
  \<open>sha256-EVOkCA8fywRCWqC4QcKxRgb+bfJdkHbSofrOLVr1cSk=\<close>.
\<close>

theorem sri_integrity_and_crossorigin:
  "(ScriptTagSri True readAsset st path attrs = Returned (tag, None) \<longrightarrow>
      (\<exists>Get attrMap content.
         mapping st = Some Get \<and> attrSliceToMap attrs = Inr attrMap \<and>
         readAsset (urlPrefix st @ Get path) = Inr content \<and>
         tag = ''<script '' @ mapToAttrs (sriAttrMap content
                  (scriptAttrMap (urlPrefix st @ Get path) attrMap)) @ ''></script>'' \<and>
         map_of (sriAttrMap content (scriptAttrMap (urlPrefix st @ Get path) attrMap)) ''integrity'' =
           Some (''sha256-'' @ base64 (sha256 content)) \<and>
         map_of (sriAttrMap content (scriptAttrMap (urlPrefix st @ Get path) attrMap)) ''crossorigin'' =
           Some ''anonymous'' \<and>
         attrString (''integrity'', ''sha256-'' @ base64 (sha256 content))
           \<in> set (map attrString (sriAttrMap content (scriptAttrMap (urlPrefix st @ Get path) attrMap))) \<and>
         attrString (''crossorigin'', ''anonymous'')
           \<in> set (map attrString (sriAttrMap content (scriptAttrMap (urlPrefix st @ Get path) attrMap))))) \<and>
   (LinkTagSri True readAsset st path attrs = Returned (tag, None) \<longrightarrow>
      (\<exists>Get attrMap content.
         mapping st = Some Get \<and> attrSliceToMap attrs = Inr attrMap \<and>
         readAsset (urlPrefix st @ Get path) = Inr content \<and>
         tag = ''<link '' @ mapToAttrs (sriAttrMap content
                  (linkAttrMap (urlPrefix st @ Get path) attrMap)) @ ''/>'' \<and>
         map_of (sriAttrMap content (linkAttrMap (urlPrefix st @ Get path) attrMap)) ''integrity'' =
           Some (''sha256-'' @ base64 (sha256 content)) \<and>
         map_of (sriAttrMap content (linkAttrMap (urlPrefix st @ Get path) attrMap)) ''crossorigin'' =
           Some ''anonymous'' \<and>
         attrString (''integrity'', ''sha256-'' @ base64 (sha256 content))
           \<in> set (map attrString (sriAttrMap content (linkAttrMap (urlPrefix st @ Get path) attrMap))) \<and>
         attrString (''crossorigin'', ''anonymous'')
           \<in> set (map attrString (sriAttrMap content (linkAttrMap (urlPrefix st @ Get path) attrMap))))) \<and>
   ''sha256-'' @ base64 (sha256 fox) = ''sha256-EVOkCA8fywRCWqC4QcKxRgb+bfJdkHbSofrOLVr1cSk=''"
proof (intro conjI impI)
  assume a: "ScriptTagSri True readAsset st path attrs = Returned (tag, None)"
  then obtain Get attrMap content where
    f: "mapping st = Some Get" "attrSliceToMap attrs = Inr attrMap"
       "readAsset (urlPrefix st @ Get path) = Inr content"
       "tag = ''<script '' @ mapToAttrs (sriAttrMap content
                  (scriptAttrMap (urlPrefix st @ Get path) attrMap)) @ ''></script>''"
    by (auto simp: ScriptTagSri_def Let_def split: sum.splits option.splits)
  from f sri_attrs_rendered [OF distinct_scriptAttrMap, of content "urlPrefix st @ Get path" attrMap]
  show "\<exists>Get attrMap content.
         mapping st = Some Get \<and> attrSliceToMap attrs = Inr attrMap \<and>
         readAsset (urlPrefix st @ Get path) = Inr content \<and>
         tag = ''<script '' @ mapToAttrs (sriAttrMap content
                  (scriptAttrMap (urlPrefix st @ Get path) attrMap)) @ ''></script>'' \<and>
         map_of (sriAttrMap content (scriptAttrMap (urlPrefix st @ Get path) attrMap)) ''integrity'' =
           Some (''sha256-'' @ base64 (sha256 content)) \<and>
         map_of (sriAttrMap content (scriptAttrMap (urlPrefix st @ Get path) attrMap)) ''crossorigin'' =
           Some ''anonymous'' \<and>
         attrString (''integrity'', ''sha256-'' @ base64 (sha256 content))
           \<in> set (map attrString (sriAttrMap content (scriptAttrMap (urlPrefix st @ Get path) attrMap))) \<and>
         attrString (''crossorigin'', ''anonymous'')
           \<in> set (map attrString (sriAttrMap content (scriptAttrMap (urlPrefix st @ Get path) attrMap)))"
    by blast
next
  assume a: "LinkTagSri True readAsset st path attrs = Returned (tag, None)"
  then obtain Get attrMap content where
    f: "mapping st = Some Get" "attrSliceToMap attrs = Inr attrMap"
       "readAsset (urlPrefix st @ Get path) = Inr content"
       "tag = ''<link '' @ mapToAttrs (sriAttrMap content
                  (linkAttrMap (urlPrefix st @ Get path) attrMap)) @ ''/>''"
    by (auto simp: LinkTagSri_def Let_def split: sum.splits option.splits)
  from f sri_attrs_rendered [OF distinct_linkAttrMap, of content "urlPrefix st @ Get path" attrMap]
  show "\<exists>Get attrMap content.
         mapping st = Some Get \<and> attrSliceToMap attrs = Inr attrMap \<and>
         readAsset (urlPrefix st @ Get path) = Inr content \<and>
         tag = ''<link '' @ mapToAttrs (sriAttrMap content
                  (linkAttrMap (urlPrefix st @ Get path) attrMap)) @ ''/>'' \<and>
         map_of (sriAttrMap content (linkAttrMap (urlPrefix st @ Get path) attrMap)) ''integrity'' =
           Some (''sha256-'' @ base64 (sha256 content)) \<and>
         map_of (sriAttrMap content (linkAttrMap (urlPrefix st @ Get path) attrMap)) ''crossorigin'' =
           Some ''anonymous'' \<and>
         attrString (''integrity'', ''sha256-'' @ base64 (sha256 content))
           \<in> set (map attrString (sriAttrMap content (linkAttrMap (urlPrefix st @ Get path) attrMap))) \<and>
         attrString (''crossorigin'', ''anonymous'')
           \<in> set (map attrString (sriAttrMap content (linkAttrMap (urlPrefix st @ Get path) attrMap)))"
    by blast
next
  show "''sha256-'' @ base64 (sha256 fox) = ''sha256-EVOkCA8fywRCWqC4QcKxRgb+bfJdkHbSofrOLVr1cSk=''"
    using fox_Hash by (simp add: Hash_def)
qed

theorem sri_integrity_and_crossorigin_witness:
  \<open>ScriptTagSri True sri_readAsset sri_Static ''asset-sri'' [] =
     Returned (''<script crossorigin="anonymous" integrity="sha256-EVOkCA8fywRCWqC4QcKxRgb+bfJdkHbSofrOLVr1cSk=" src="/tmp/asset-sri" type="text/javascript"></script>'', None) \<and>
   (\<exists>Get attrMap content.
      mapping sri_Static = Some Get \<and> attrSliceToMap [] = Inr attrMap \<and>
      sri_readAsset (urlPrefix sri_Static @ Get ''asset-sri'') = Inr content \<and>
      map_of (sriAttrMap content (scriptAttrMap (urlPrefix sri_Static @ Get ''asset-sri'') attrMap))
        ''integrity'' = Some (''sha256-'' @ base64 (sha256 content)) \<and>
      map_of (sriAttrMap content (scriptAttrMap (urlPrefix sri_Static @ Get ''asset-sri'') attrMap))
        ''crossorigin'' = Some ''anonymous'') \<and>
   LinkTagSri True sri_readAsset sri_Static ''asset-sri'' [] =
     Returned (''<link crossorigin="anonymous" href="/tmp/asset-sri" integrity="sha256-EVOkCA8fywRCWqC4QcKxRgb+bfJdkHbSofrOLVr1cSk=" rel="stylesheet" type="text/css"/>'', None) \<and>
   (\<exists>Get attrMap content.
      mapping sri_Static = Some Get \<and> attrSliceToMap [] = Inr attrMap \<and>
      sri_readAsset (urlPrefix sri_Static @ Get ''asset-sri'') = Inr content \<and>
      map_of (sriAttrMap content (linkAttrMap (urlPrefix sri_Static @ Get ''asset-sri'') attrMap))
        ''integrity'' = Some (''sha256-'' @ base64 (sha256 content)) \<and>
      map_of (sriAttrMap content (linkAttrMap (urlPrefix sri_Static @ Get ''asset-sri'') attrMap))
        ''crossorigin'' = Some ''anonymous'')\<close>
proof -
  note s = TestScriptTagSri
  note l = TestLinkTagSri
  from s sri_integrity_and_crossorigin
    [where readAsset = sri_readAsset and st = sri_Static and path = "''asset-sri''"
       and attrs = "[]" and tag = \<open>''<script crossorigin="anonymous" integrity="sha256-EVOkCA8fywRCWqC4QcKxRgb+bfJdkHbSofrOLVr1cSk=" src="/tmp/asset-sri" type="text/javascript"></script>''\<close>]
  have a: "\<exists>Get attrMap content.
      mapping sri_Static = Some Get \<and> attrSliceToMap [] = Inr attrMap \<and>
      sri_readAsset (urlPrefix sri_Static @ Get ''asset-sri'') = Inr content \<and>
      map_of (sriAttrMap content (scriptAttrMap (urlPrefix sri_Static @ Get ''asset-sri'') attrMap))
        ''integrity'' = Some (''sha256-'' @ base64 (sha256 content)) \<and>
      map_of (sriAttrMap content (scriptAttrMap (urlPrefix sri_Static @ Get ''asset-sri'') attrMap))
        ''crossorigin'' = Some ''anonymous''"
    by blast
  from l sri_integrity_and_crossorigin
    [where readAsset = sri_readAsset and st = sri_Static and path = "''asset-sri''"
       and attrs = "[]" and tag = \<open>''<link crossorigin="anonymous" href="/tmp/asset-sri" integrity="sha256-EVOkCA8fywRCWqC4QcKxRgb+bfJdkHbSofrOLVr1cSk=" rel="stylesheet" type="text/css"/>''\<close>]
  have b: "\<exists>Get attrMap content.
      mapping sri_Static = Some Get \<and> attrSliceToMap [] = Inr attrMap \<and>
      sri_readAsset (urlPrefix sri_Static @ Get ''asset-sri'') = Inr content \<and>
      map_of (sriAttrMap content (linkAttrMap (urlPrefix sri_Static @ Get ''asset-sri'') attrMap))
        ''integrity'' = Some (''sha256-'' @ base64 (sha256 content)) \<and>
      map_of (sriAttrMap content (linkAttrMap (urlPrefix sri_Static @ Get ''asset-sri'') attrMap))
        ''crossorigin'' = Some ''anonymous''"
    by blast
  from s l a b show ?thesis by blast
qed

text \<open>
  C3, as the code has it. \<open>mapToAttrs\<close> joins with single spaces the sorted strings
  \<open>name="value"\<close> of the entries, name and value escaped, the escaped text holding no
  \<open><\<close>, \<open>>\<close> or quote; the result does not depend on the order in which the map is
  traversed. For attribute lists of even length whose names are pairwise distinct,
  permuting the pairs leaves the tags of \<open>ScriptTag\<close> and \<open>LinkTag\<close> unchanged.
\<close>

theorem rendering_sorted_and_order_independent:
  \<open>(\<exists>xs. sorted xs \<and> mset xs = image_mset attrString (mset attrMap) \<and>
         mapToAttrs attrMap = strings_Join xs '' '') \<and>
   attrString (k, v) = html_EscapeString k @ ''="'' @ html_EscapeString v @ ''"'' \<and>
   (CHR ''<'' \<notin> set (html_EscapeString s) \<and> CHR ''>'' \<notin> set (html_EscapeString s) \<and>
    CHR 0x22 \<notin> set (html_EscapeString s) \<and> CHR 0x27 \<notin> set (html_EscapeString s)) \<and>
   html_EscapeString ''a&b'' = ''a&amp;b'' \<and>
   (distinct (map fst m) \<and> distinct (map fst m') \<and> map_of m = map_of m'
      \<longrightarrow> mapToAttrs m = mapToAttrs m') \<and>
   (even (length attrs) \<and> even (length attrs') \<and> mset (pairs attrs) = mset (pairs attrs') \<and>
    distinct (map fst (pairs attrs))
      \<longrightarrow> ScriptTag st path attrs = ScriptTag st path attrs' \<and>
          LinkTag st path attrs = LinkTag st path attrs')\<close>
proof (intro conjI impI)
  show "\<exists>xs. sorted xs \<and> mset xs = image_mset attrString (mset attrMap) \<and>
         mapToAttrs attrMap = strings_Join xs '' ''"
    by (rule exI [of _ "sort (map attrString attrMap)"]) (simp add: mapToAttrs_def)
  show \<open>attrString (k, v) = html_EscapeString k @ ''="'' @ html_EscapeString v @ ''"''\<close>
    by (simp add: attrString_def)
  show "CHR ''<'' \<notin> set (html_EscapeString s)" "CHR ''>'' \<notin> set (html_EscapeString s)"
    "CHR 0x22 \<notin> set (html_EscapeString s)" "CHR 0x27 \<notin> set (html_EscapeString s)"
    using html_EscapeString_safe [of s] by blast+
  show "html_EscapeString ''a&b'' = ''a&amp;b''"
    by (simp add: html_EscapeString_def htmlEscaper_def)
next
  assume "distinct (map fst m) \<and> distinct (map fst m') \<and> map_of m = map_of m'"
  then show "mapToAttrs m = mapToAttrs m'" by (blast intro: mapToAttrs_cong)
next
  assume a: "even (length attrs) \<and> even (length attrs') \<and>
    mset (pairs attrs) = mset (pairs attrs') \<and> distinct (map fst (pairs attrs))"
  then obtain am am' where am: "attrSliceToMap attrs = Inr am" "attrSliceToMap attrs' = Inr am'"
    by (auto simp: attrSliceToMap_even)
  from a have "map_of (rev (pairs attrs)) = map_of (rev (pairs attrs'))"
    by (blast intro: pairs_permuted_same_map)
  with am have "map_of am = map_of am'" by (simp add: map_of_attrSliceToMap)
  with am have both: "ScriptTag st path attrs = ScriptTag st path attrs' \<and>
         LinkTag st path attrs = LinkTag st path attrs'" by (rule tags_same_map)
  from both show "ScriptTag st path attrs = ScriptTag st path attrs'" by blast
  from both show "LinkTag st path attrs = LinkTag st path attrs'" by blast
qed

theorem rendering_sorted_and_order_independent_witness:
  "mapToAttrs [(''rel'', ''stylesheet''), (''type'', ''text/css'')] =
     mapToAttrs [(''type'', ''text/css''), (''rel'', ''stylesheet'')] \<and>
   ScriptTag sample_Static ''js/other.js'' [''defer'', ''defer'', ''data-main'', ''some value''] =
     ScriptTag sample_Static ''js/other.js'' [''data-main'', ''some value'', ''defer'', ''defer''] \<and>
   LinkTag sample_Static ''js/other.js'' [''defer'', ''defer'', ''data-main'', ''some value''] =
     LinkTag sample_Static ''js/other.js'' [''data-main'', ''some value'', ''defer'', ''defer'']"
proof -
  have eq: "map_of [(''rel'', ''stylesheet''), (''type'', ''text/css'')] =
      map_of [(''type'', ''text/css''), (''rel'', ''stylesheet'')]"
    by (rule ext) simp
  have ms: "mset (pairs [''defer'', ''defer'', ''data-main'', ''some value'']) =
      mset (pairs [''data-main'', ''some value'', ''defer'', ''defer''])"
    by simp
  show ?thesis
    using rendering_sorted_and_order_independent
      [where m = "[(''rel'', ''stylesheet''), (''type'', ''text/css'')]"
         and m' = "[(''type'', ''text/css''), (''rel'', ''stylesheet'')]"
         and attrs = "[''defer'', ''defer'', ''data-main'', ''some value'']"
         and attrs' = "[''data-main'', ''some value'', ''defer'', ''defer'']"
         and st = sample_Static and path = "''js/other.js''"] eq ms
    by simp
qed

text \<open>
  C3, as it is stated, fails when a name occurs twice: the two lists below hold the same
  pairs in different orders and give different tags, since the last pair wins.
\<close>

theorem permuted_duplicate_names_counterexample:
  "even (length [''id'', ''a'', ''id'', ''b'']) \<and>
   mset (pairs [''id'', ''a'', ''id'', ''b'']) = mset (pairs [''id'', ''b'', ''id'', ''a'']) \<and>
   ScriptTag sample_Static ''js/main.js'' [''id'', ''a'', ''id'', ''b''] \<noteq>
     ScriptTag sample_Static ''js/main.js'' [''id'', ''b'', ''id'', ''a'']"
  by (simp add: tag_eval sample_Static_def)

text \<open>
  C4. An attribute list of even length is merged without error, and \<open>ScriptTag\<close> and
  \<open>LinkTag\<close> then return a tag and a \<open>nil\<close> error on a resolver that has its mapping. On
  a list of odd length both return the empty markup with the error of \<open>attrSliceToMap\<close>,
  and the same resolver still serves a later call with a list of even length.
\<close>

theorem tags_attribute_parity:
  "(even (length attrs) \<longrightarrow>
      attrSliceToMap attrs = Inr (fold (\<lambda>(key, val). AList.update key val) (pairs attrs) []) \<and>
      (mapping st = Some g \<longrightarrow>
         (\<exists>tag. ScriptTag st path attrs = Returned (tag, None)) \<and>
         (\<exists>tag. LinkTag st path attrs = Returned (tag, None)))) \<and>
   (odd (length attrs) \<longrightarrow>
      ScriptTag st path attrs =
        Returned ([], Some (errors_New ''ScriptTag attributes don't form pairs'')) \<and>
      LinkTag st path attrs =
        Returned ([], Some (errors_New ''ScriptTag attributes don't form pairs'')) \<and>
      (even (length attrs') \<and> mapping st = Some g \<longrightarrow>
         (\<exists>tag. ScriptTag st path' attrs' = Returned (tag, None)) \<and>
         (\<exists>tag. LinkTag st path' attrs' = Returned (tag, None))))"
  by (auto simp: ScriptTag_def LinkTag_def attrSliceToMap_even attrSliceToMap_odd)

theorem tags_attribute_parity_witness:
  "ScriptTag sample_Static ''js/other.js'' [''data-main'', ''some value'', ''defer''] =
     Returned ([], Some (errors_New ''ScriptTag attributes don't form pairs'')) \<and>
   LinkTag sample_Static ''css/other.css'' [''media'', ''some value'', ''title''] =
     Returned ([], Some (errors_New ''ScriptTag attributes don't form pairs'')) \<and>
   (\<exists>tag. ScriptTag sample_Static ''js/main.js'' [''defer'', ''defer''] = Returned (tag, None)) \<and>
   (\<exists>tag. LinkTag sample_Static ''css/style.css'' [''media'', ''print''] = Returned (tag, None))"
proof -
  have m: "mapping sample_Static = Some (StaticMap_Get \<lparr>innerMap = Map.empty, useMinified = True\<rparr>)"
    by (simp add: sample_Static_def)
  have a: "ScriptTag sample_Static ''js/other.js'' [''data-main'', ''some value'', ''defer''] =
      Returned ([], Some (errors_New ''ScriptTag attributes don't form pairs'')) \<and>
    (\<exists>tag. ScriptTag sample_Static ''js/main.js'' [''defer'', ''defer''] = Returned (tag, None))"
    using tags_attribute_parity [where attrs = "[''data-main'', ''some value'', ''defer'']"
        and st = sample_Static and path = "''js/other.js''" and path' = "''js/main.js''"
        and attrs' = "[''defer'', ''defer'']"
        and g = "StaticMap_Get \<lparr>innerMap = Map.empty, useMinified = True\<rparr>"] m
    by simp
  have b: "LinkTag sample_Static ''css/other.css'' [''media'', ''some value'', ''title''] =
      Returned ([], Some (errors_New ''ScriptTag attributes don't form pairs'')) \<and>
    (\<exists>tag. LinkTag sample_Static ''css/style.css'' [''media'', ''print''] = Returned (tag, None))"
    using tags_attribute_parity [where attrs = "[''media'', ''some value'', ''title'']"
        and st = sample_Static and path = "''css/other.css''" and path' = "''css/style.css''"
        and attrs' = "[''media'', ''print'']"
        and g = "StaticMap_Get \<lparr>innerMap = Map.empty, useMinified = True\<rparr>"] m
    by simp
  from a b show ?thesis by blast
qed

text \<open>
  C5 on the code: a manifest that is valid JSON but not an object, here the array
  \<open>[]\<close>, makes \<open>createMapping\<close> panic at its type assertion, and \<open>NewStatic\<close> with it;
  no error is returned. (A manifest the decoder rejects does give an error, see
  \<open>createMapping_cases\<close>.)
\<close>

theorem non_object_manifest_panics:
  "createMapping sample_Unmarshal (Some (\<lambda>name. Inr ''[]'')) ''data/manifest.json'' False = Panicked \<and>
   NewStatic sample_Unmarshal (\<lambda>name. Inl (errors_New ''no such file'')) ''/static''
     ''data/manifest.json'' [WithManifestLoader (Some (\<lambda>name. Inr ''[]''))] = Panicked"
  by (simp add: NewStatic_def configure_def createMapping_def sample_Unmarshal_def)

text \<open>
  C6. For every set of defaults: the last pair that carries a name decides the value of
  that name after \<open>updateMap\<close>, whatever the defaults hold for it. In particular
  \<open>LinkTag("css/x.css", "type", "text/plain")\<close> renders \<open>type="text/plain"\<close> in the
  place of the default \<open>text/css\<close>.
\<close>

theorem override_replaces_default:
  \<open>(even (length attrs) \<and> 2 * j + 1 < length attrs \<and>
    (\<forall>j'. j < j' \<and> 2 * j' + 1 < length attrs \<longrightarrow> attrs ! (2 * j') \<noteq> attrs ! (2 * j))
      \<longrightarrow> (\<exists>attrMap. attrSliceToMap attrs = Inr attrMap \<and>
             map_of (updateMap defaults attrMap) (attrs ! (2 * j)) = Some (attrs ! (2 * j + 1)))) \<and>
   (mapping st = Some g
      \<longrightarrow> LinkTag st ''css/x.css'' [''type'', ''text/plain''] =
            Returned (''<link href="'' @ html_EscapeString (urlPrefix st @ g ''css/x.css'')
                        @ ''" rel="stylesheet" type="text/plain"/>'', None))\<close>
proof (intro conjI impI)
  assume a: "even (length attrs) \<and> 2 * j + 1 < length attrs \<and>
    (\<forall>j'. j < j' \<and> 2 * j' + 1 < length attrs \<longrightarrow> attrs ! (2 * j') \<noteq> attrs ! (2 * j))"
  then obtain am where am: "attrSliceToMap attrs = Inr am"
    by (auto simp: attrSliceToMap_even)
  from a have "map_of (rev (pairs attrs)) (attrs ! (2 * j)) = Some (attrs ! (2 * j + 1))"
    by (blast intro: last_pair_value)
  with am have "map_of am (attrs ! (2 * j)) = Some (attrs ! (2 * j + 1))"
    by (simp add: map_of_attrSliceToMap)
  with am have "map_of (updateMap defaults am) (attrs ! (2 * j)) = Some (attrs ! (2 * j + 1))"
    by (simp add: map_of_updateMap_distinct distinct_attrSliceToMap)
  with am show "\<exists>attrMap. attrSliceToMap attrs = Inr attrMap \<and>
             map_of (updateMap defaults attrMap) (attrs ! (2 * j)) = Some (attrs ! (2 * j + 1))"
    by blast
next
  assume "mapping st = Some g"
  then show \<open>LinkTag st ''css/x.css'' [''type'', ''text/plain''] =
            Returned (''<link href="'' @ html_EscapeString (urlPrefix st @ g ''css/x.css'')
                        @ ''" rel="stylesheet" type="text/plain"/>'', None)\<close>
    by (simp add: LinkTag_def attrSliceToMap_def attrSlice_loop.simps linkAttrMap_def
        updateMap_def mapToAttrs_def attrString_def html_EscapeString_def htmlEscaper_def)
qed

theorem override_replaces_default_witness:
  \<open>(\<exists>attrMap. attrSliceToMap [''type'', ''text/plain''] = Inr attrMap \<and>
      map_of (updateMap [(''type'', ''text/css''), (''rel'', ''stylesheet'')] attrMap) ''type'' =
        Some ''text/plain'') \<and>
   LinkTag sample_Static ''css/x.css'' [''type'', ''text/plain''] =
     Returned (''<link href="/static/css/x.css" rel="stylesheet" type="text/plain"/>'', None)\<close>
proof -
  let ?attrs = "[''type'', ''text/plain'']"
  let ?g = "StaticMap_Get \<lparr>innerMap = Map.empty, useMinified = True\<rparr>"
  note inst = override_replaces_default
      [where attrs = ?attrs and j = 0 and st = sample_Static
         and defaults = "[(''type'', ''text/css''), (''rel'', ''stylesheet'')]" and g = ?g]
  have hyp: "even (length ?attrs) \<and> 2 * 0 + 1 < length ?attrs \<and>
    (\<forall>j'. 0 < j' \<and> 2 * j' + 1 < length ?attrs \<longrightarrow> ?attrs ! (2 * j') \<noteq> ?attrs ! (2 * 0))"
  proof (intro conjI allI impI)
    fix j' :: nat
    assume "0 < j' \<and> 2 * j' + 1 < length ?attrs"
    then have False by auto
    then show "?attrs ! (2 * j') \<noteq> ?attrs ! (2 * 0)" ..
  qed simp_all
  have m: "mapping sample_Static = Some ?g"
    by (simp add: sample_Static_def)
  have url: "html_EscapeString (urlPrefix sample_Static @ ?g ''css/x.css'') = ''/static/css/x.css''"
    by (simp add: sample_Static_def StaticMap_Get_def getStringFromMap_def
        html_EscapeString_def htmlEscaper_def)
  from inst hyp have "\<exists>attrMap. attrSliceToMap ?attrs = Inr attrMap \<and>
      map_of (updateMap [(''type'', ''text/css''), (''rel'', ''stylesheet'')] attrMap)
        (?attrs ! (2 * 0)) = Some (?attrs ! (2 * 0 + 1))"
    by blast
  then have a: "\<exists>attrMap. attrSliceToMap ?attrs = Inr attrMap \<and>
      map_of (updateMap [(''type'', ''text/css''), (''rel'', ''stylesheet'')] attrMap) ''type'' =
        Some ''text/plain''"
    by simp
  from inst m have \<open>LinkTag sample_Static ''css/x.css'' ?attrs =
     Returned (''<link href="'' @ html_EscapeString (urlPrefix sample_Static @ ?g ''css/x.css'')
                 @ ''" rel="stylesheet" type="text/plain"/>'', None)\<close>
    by blast
  then have b: \<open>LinkTag sample_Static ''css/x.css'' ?attrs =
     Returned (''<link href="/static/css/x.css" rel="stylesheet" type="text/plain"/>'', None)\<close>
    unfolding url by simp
  from a b show ?thesis by blast
qed

text \<open>
  C7. When the loader left by the options returns an error, when the decoder rejects
  the manifest bytes, or when a custom builder returns an error, \<open>NewStatic\<close> returns
  that error and no resolver. Whenever \<open>NewStatic\<close> returns, it returns either a resolver
  or an error, never both and never neither.
\<close>

theorem NewStatic_failure_yields_no_instance:
  "(mappingBuilder (configure rf prefix path options) = None \<and>
    manifestLoader (configure rf prefix path options) = Some load \<and> load path = Inl e
      \<longrightarrow> NewStatic dec rf prefix path options = Returned (None, Some e)) \<and>
   (mappingBuilder (configure rf prefix path options) = None \<and>
    manifestLoader (configure rf prefix path options) = Some load \<and>
    load path = Inr content \<and> dec content = Inl e
      \<longrightarrow> NewStatic dec rf prefix path options = Returned (None, Some e)) \<and>
   (mappingBuilder (configure rf prefix path options) = Some (Returned (m, Some e))
      \<longrightarrow> NewStatic dec rf prefix path options = Returned (None, Some e)) \<and>
   (NewStatic dec rf prefix path options = Returned (r, err) \<longrightarrow> (r = None \<longleftrightarrow> err \<noteq> None))"
proof (intro conjI impI)
  assume "mappingBuilder (configure rf prefix path options) = None \<and>
    manifestLoader (configure rf prefix path options) = Some load \<and> load path = Inl e"
  then show "NewStatic dec rf prefix path options = Returned (None, Some e)"
    by (simp add: NewStatic_def createMapping_def)
next
  assume "mappingBuilder (configure rf prefix path options) = None \<and>
    manifestLoader (configure rf prefix path options) = Some load \<and>
    load path = Inr content \<and> dec content = Inl e"
  then show "NewStatic dec rf prefix path options = Returned (None, Some e)"
    by (simp add: NewStatic_def createMapping_def)
next
  assume "mappingBuilder (configure rf prefix path options) = Some (Returned (m, Some e))"
  then show "NewStatic dec rf prefix path options = Returned (None, Some e)"
    by (simp add: NewStatic_def)
next
  assume "NewStatic dec rf prefix path options = Returned (r, err)"
  then show "r = None \<longleftrightarrow> err \<noteq> None"
    by (auto simp: NewStatic_def Let_def split: outcome.splits option.splits prod.splits)
qed

theorem NewStatic_failure_yields_no_instance_witness:
  "NewStatic sample_Unmarshal (\<lambda>name. Inl (errors_New ''no such file'')) ''/static''
     ''data/manifest.json'' [WithManifestLoader (Some (\<lambda>name. Inl (errors_New ''I/O Error'')))] =
     Returned (None, Some (errors_New ''I/O Error'')) \<and>
   NewStatic sample_Unmarshal (\<lambda>name. Inl (errors_New ''no such file'')) ''/static''
     ''data/manifest.json'' [WithManifestLoader (Some (\<lambda>name. Inr ''garbage''))] =
     Returned (None, Some (errors_New ''invalid character 'g' looking for beginning of value'')) \<and>
   NewStatic sample_Unmarshal (\<lambda>name. Inl (errors_New ''no such file'')) ''/static''
     ''data/manifest.json''
     [WithMappingBuilder (Some (Returned (Some (\<lambda>name. name), Some (errors_New ''no mapping''))))] =
     Returned (None, Some (errors_New ''no mapping''))"
proof -
  let ?rf = "\<lambda>name::string. Inl (errors_New ''no such file'') :: error + string"
  have a: "NewStatic sample_Unmarshal ?rf ''/static''
     ''data/manifest.json'' [WithManifestLoader (Some (\<lambda>name. Inl (errors_New ''I/O Error'')))] =
     Returned (None, Some (errors_New ''I/O Error''))"
    using NewStatic_failure_yields_no_instance
      [where rf = ?rf and prefix = "''/static''" and path = "''data/manifest.json''"
         and options = "[WithManifestLoader (Some (\<lambda>name. Inl (errors_New ''I/O Error'')))]"
         and load = "\<lambda>name. Inl (errors_New ''I/O Error'')" and e = "errors_New ''I/O Error''"
         and dec = sample_Unmarshal]
    by (simp add: configure_def)
  have b: "NewStatic sample_Unmarshal ?rf ''/static''
     ''data/manifest.json'' [WithManifestLoader (Some (\<lambda>name. Inr ''garbage''))] =
     Returned (None, Some (errors_New ''invalid character 'g' looking for beginning of value''))"
    using NewStatic_failure_yields_no_instance
      [where rf = ?rf and prefix = "''/static''" and path = "''data/manifest.json''"
         and options = "[WithManifestLoader (Some (\<lambda>name. Inr ''garbage''))]"
         and load = "\<lambda>name. Inr ''garbage''" and e = "errors_New ''invalid character 'g' looking for beginning of value''"
         and content = "''garbage''" and dec = sample_Unmarshal]
    by (simp add: configure_def sample_Unmarshal_def)
  have c: "NewStatic sample_Unmarshal ?rf ''/static''
     ''data/manifest.json''
     [WithMappingBuilder (Some (Returned (Some (\<lambda>name. name), Some (errors_New ''no mapping''))))] =
     Returned (None, Some (errors_New ''no mapping''))"
    using NewStatic_failure_yields_no_instance
      [where rf = ?rf and prefix = "''/static''" and path = "''data/manifest.json''"
         and options = "[WithMappingBuilder (Some (Returned (Some (\<lambda>name. name),
              Some (errors_New ''no mapping''))))]"
         and m = "Some (\<lambda>name. name)" and e = "errors_New ''no mapping''"
         and dec = sample_Unmarshal]
    by (simp add: configure_def)
  from a b c show ?thesis by blast
qed

text \<open>
  C8, as the code has it. The prefix stored by \<open>NewStatic\<close> is the argument when the
  argument ends with a slash, and the argument followed by one slash otherwise. So it
  always ends with a slash, and with exactly one unless the argument ended with two;
  \<open>Static()\<close> returns the stored prefix and a \<open>nil\<close> error.
\<close>

theorem NewStatic_prefix_ends_with_slash:
  "NewStatic dec rf prefix path options = Returned (Some st, err) \<longrightarrow>
     urlPrefix st = (if strings_HasSuffix prefix ''/'' then prefix else prefix @ ''/'') \<and>
     strings_HasSuffix (urlPrefix st) ''/'' \<and>
     (\<not> strings_HasSuffix prefix ''//'' \<longrightarrow> one_trailing_slash (urlPrefix st)) \<and>
     Static_Static st = (urlPrefix st, None)"
proof
  assume "NewStatic dec rf prefix path options = Returned (Some st, err)"
  then have p: "urlPrefix st = (if strings_HasSuffix prefix ''/'' then prefix else prefix @ ''/'')"
    by (simp add: NewStatic_urlPrefix urlPrefix_configure)
  have a: "strings_HasSuffix (urlPrefix st) ''/''"
    by (simp add: p HasSuffix_slash)
  have b: "one_trailing_slash (urlPrefix st)" if "\<not> strings_HasSuffix prefix ''//''"
  proof (cases "strings_HasSuffix prefix ''/''")
    case True
    with that p show ?thesis by (simp add: one_trailing_slash_iff)
  next
    case False
    then have "\<not> strings_HasSuffix (prefix @ ''/'') ''//''"
      by (auto simp: HasSuffix_two_slashes HasSuffix_slash append_eq_append_conv2
          Cons_eq_append_conv)
    moreover have "strings_HasSuffix (prefix @ ''/'') ''/''"
      by (simp add: HasSuffix_slash)
    moreover from False p have "urlPrefix st = prefix @ ''/''" by simp
    ultimately show ?thesis by (simp add: one_trailing_slash_iff)
  qed
  from p a b show "urlPrefix st = (if strings_HasSuffix prefix ''/'' then prefix else prefix @ ''/'') \<and>
     strings_HasSuffix (urlPrefix st) ''/'' \<and>
     (\<not> strings_HasSuffix prefix ''//'' \<longrightarrow> one_trailing_slash (urlPrefix st)) \<and>
     Static_Static st = (urlPrefix st, None)"
    by (simp add: Static_Static_def)
qed

theorem NewStatic_prefix_ends_with_slash_witness:
  "urlPrefix sample_Static = ''/static/'' \<and> one_trailing_slash (urlPrefix sample_Static) \<and>
   Static_Static sample_Static = (''/static/'', None)"
proof -
  have n: "NewStatic sample_Unmarshal (\<lambda>name. Inl (errors_New ''no such file'')) ''/static''
      ''data/manifest.json'' [WithManifestLoader (Some (\<lambda>name. Inr ''{}'')), WithUseMinified True] =
    Returned (Some sample_Static, None)"
    by (rule TestNewStatic)
  have h: "\<not> strings_HasSuffix ''/static'' ''//''" "\<not> strings_HasSuffix ''/static'' ''/''"
    by (simp_all add: strings_HasSuffix_def)
  from NewStatic_prefix_ends_with_slash
    [of sample_Unmarshal "\<lambda>name. Inl (errors_New ''no such file'')" "''/static''"
        "''data/manifest.json''" "[WithManifestLoader (Some (\<lambda>name. Inr ''{}'')), WithUseMinified True]"
        sample_Static None] n h
  show ?thesis by auto
qed

text \<open>
  C8, as it is stated, fails on a prefix that ends with two slashes: \<open>NewStatic\<close> only
  adds a slash that is missing and removes none.
\<close>

theorem two_trailing_slashes_counterexample:
  "NewStatic sample_Unmarshal (\<lambda>name. Inr ''{}'') ''/static//'' ''data/manifest.json'' [] \<noteq> Panicked \<and>
   map_option urlPrefix
     (fst (returned (NewStatic sample_Unmarshal (\<lambda>name. Inr ''{}'') ''/static//''
        ''data/manifest.json'' []))) = Some ''/static//'' \<and>
   \<not> one_trailing_slash ''/static//''"
  by (simp add: NewStatic_def configure_def createMapping_def sample_Unmarshal_def
      strings_HasSuffix_def one_trailing_slash_def outcome.sel)

text \<open>
  C9. On a list of even length and a resolver with its mapping, the tag of \<open>ScriptTag\<close>
  is \<open><script \<close>, the sorted rendered attributes joined by spaces, and \<open>></script>\<close>;
  exactly one of these attributes has the name \<open>src\<close>, and it is \<open>src="u"\<close> for the
  HTML-escaped text \<open>u\<close> of the prefix followed by \<open>Get(path)\<close>, whatever the caller
  passed under \<open>src\<close>. The same holds for \<open>LinkTag\<close> and \<open>href\<close>. Escaping leaves a URL
  unchanged that holds none of the five escaped characters.
\<close>

theorem tag_url_attribute_fixed:
  \<open>(even (length attrs) \<and> mapping st = Some g \<longrightarrow>
     (\<exists>attrMap. attrSliceToMap attrs = Inr attrMap \<and>
        ScriptTag st path attrs =
          Returned (''<script '' @
            strings_Join (sort (map attrString (scriptAttrMap (urlPrefix st @ g path) attrMap))) '' ''
            @ ''></script>'', None) \<and>
        filter (attr_named ''src'')
            (sort (map attrString (scriptAttrMap (urlPrefix st @ g path) attrMap))) =
          [''src="'' @ html_EscapeString (urlPrefix st @ g path) @ ''"''] \<and>
        map_of (scriptAttrMap (urlPrefix st @ g path) attrMap) ''src'' = Some (urlPrefix st @ g path) \<and>
        (\<forall>v. (''src'', v) \<in> set (scriptAttrMap (urlPrefix st @ g path) attrMap)
           \<longrightarrow> v = urlPrefix st @ g path) \<and>
        LinkTag st path attrs =
          Returned (''<link '' @
            strings_Join (sort (map attrString (linkAttrMap (urlPrefix st @ g path) attrMap))) '' ''
            @ ''/>'', None) \<and>
        filter (attr_named ''href'')
            (sort (map attrString (linkAttrMap (urlPrefix st @ g path) attrMap))) =
          [''href="'' @ html_EscapeString (urlPrefix st @ g path) @ ''"''] \<and>
        map_of (linkAttrMap (urlPrefix st @ g path) attrMap) ''href'' = Some (urlPrefix st @ g path) \<and>
        (\<forall>v. (''href'', v) \<in> set (linkAttrMap (urlPrefix st @ g path) attrMap)
           \<longrightarrow> v = urlPrefix st @ g path))) \<and>
   (set (urlPrefix st @ g path) \<inter> {CHR ''&'', CHR 0x27, CHR ''<'', CHR ''>'', CHR 0x22} = {}
      \<longrightarrow> html_EscapeString (urlPrefix st @ g path) = urlPrefix st @ g path)\<close>
proof (intro conjI impI)
  assume "even (length attrs) \<and> mapping st = Some g"
  then have ev: "even (length attrs)" and m: "mapping st = Some g" by blast+
  let ?a = "fold (\<lambda>(key, val). AList.update key val) (pairs attrs) []"
  let ?url = "urlPrefix st @ g path"
  from ev have a: "attrSliceToMap attrs = Inr ?a" by (rule attrSliceToMap_even)
  have s: "map_of (scriptAttrMap ?url ?a) ''src'' = Some ?url"
    by (simp add: map_of_scriptAttrMap)
  have l: "map_of (linkAttrMap ?url ?a) ''href'' = Some ?url"
    by (simp add: map_of_linkAttrMap)
  have sf: \<open>filter (attr_named ''src'') (sort (map attrString (scriptAttrMap ?url ?a))) =
      [''src="'' @ html_EscapeString ?url @ ''"'']\<close>
    using rendered_named_once [OF _ distinct_scriptAttrMap s]
    by (simp add: attrString_def html_EscapeString_def htmlEscaper_def)
  have lf: \<open>filter (attr_named ''href'') (sort (map attrString (linkAttrMap ?url ?a))) =
      [''href="'' @ html_EscapeString ?url @ ''"'']\<close>
    using rendered_named_once [OF _ distinct_linkAttrMap l]
    by (simp add: attrString_def html_EscapeString_def htmlEscaper_def)
  have su: "\<forall>v. (''src'', v) \<in> set (scriptAttrMap ?url ?a) \<longrightarrow> v = ?url"
  proof (intro allI impI)
    fix v assume "(''src'', v) \<in> set (scriptAttrMap ?url ?a)"
    then have "map_of (scriptAttrMap ?url ?a) ''src'' = Some v"
      by (rule map_of_is_SomeI [OF distinct_scriptAttrMap])
    with s show "v = ?url" by simp
  qed
  have lu: "\<forall>v. (''href'', v) \<in> set (linkAttrMap ?url ?a) \<longrightarrow> v = ?url"
  proof (intro allI impI)
    fix v assume "(''href'', v) \<in> set (linkAttrMap ?url ?a)"
    then have "map_of (linkAttrMap ?url ?a) ''href'' = Some v"
      by (rule map_of_is_SomeI [OF distinct_linkAttrMap])
    with l show "v = ?url" by simp
  qed
  have st: "ScriptTag st path attrs =
      Returned (''<script '' @ strings_Join (sort (map attrString (scriptAttrMap ?url ?a))) '' ''
        @ ''></script>'', None)"
    by (simp add: ScriptTag_def a m mapToAttrs_def)
  have lt: "LinkTag st path attrs =
      Returned (''<link '' @ strings_Join (sort (map attrString (linkAttrMap ?url ?a))) '' ''
        @ ''/>'', None)"
    by (simp add: LinkTag_def a m mapToAttrs_def)
  from a st sf s su lt lf l lu
  show \<open>\<exists>attrMap. attrSliceToMap attrs = Inr attrMap \<and>
        ScriptTag st path attrs =
          Returned (''<script '' @
            strings_Join (sort (map attrString (scriptAttrMap (urlPrefix st @ g path) attrMap))) '' ''
            @ ''></script>'', None) \<and>
        filter (attr_named ''src'')
            (sort (map attrString (scriptAttrMap (urlPrefix st @ g path) attrMap))) =
          [''src="'' @ html_EscapeString (urlPrefix st @ g path) @ ''"''] \<and>
        map_of (scriptAttrMap (urlPrefix st @ g path) attrMap) ''src'' = Some (urlPrefix st @ g path) \<and>
        (\<forall>v. (''src'', v) \<in> set (scriptAttrMap (urlPrefix st @ g path) attrMap)
           \<longrightarrow> v = urlPrefix st @ g path) \<and>
        LinkTag st path attrs =
          Returned (''<link '' @
            strings_Join (sort (map attrString (linkAttrMap (urlPrefix st @ g path) attrMap))) '' ''
            @ ''/>'', None) \<and>
        filter (attr_named ''href'')
            (sort (map attrString (linkAttrMap (urlPrefix st @ g path) attrMap))) =
          [''href="'' @ html_EscapeString (urlPrefix st @ g path) @ ''"''] \<and>
        map_of (linkAttrMap (urlPrefix st @ g path) attrMap) ''href'' = Some (urlPrefix st @ g path) \<and>
        (\<forall>v. (''href'', v) \<in> set (linkAttrMap (urlPrefix st @ g path) attrMap)
           \<longrightarrow> v = urlPrefix st @ g path)\<close>
    by blast
next
  assume \<open>set (urlPrefix st @ g path) \<inter> {CHR ''&'', CHR 0x27, CHR ''<'', CHR ''>'', CHR 0x22} = {}\<close>
  then show "html_EscapeString (urlPrefix st @ g path) = urlPrefix st @ g path"
    by (rule html_EscapeString_plain)
qed

theorem tag_url_attribute_fixed_witness:
  \<open>ScriptTag sample_Static ''js/main.js'' [''src'', ''evil.js''] =
     Returned (''<script src="/static/js/main.js" type="text/javascript"></script>'', None) \<and>
   LinkTag sample_Static ''css/style.css'' [''href'', ''evil.css'', ''media'', ''print''] =
     Returned (''<link href="/static/css/style.css" media="print" rel="stylesheet" type="text/css"/>'', None) \<and>
   ScriptTag sample_Static ''x.js?a=1&b=2'' [] =
     Returned (''<script src="/static/x.js?a=1&amp;b=2" type="text/javascript"></script>'', None)\<close>
proof -
  let ?g = "StaticMap_Get \<lparr>innerMap = Map.empty, useMinified = True\<rparr>"
  have m: "mapping sample_Static = Some ?g"
    by (simp add: sample_Static_def)
  have hyp: "even (length [''src'', ''evil.js'']) \<and> mapping sample_Static = Some ?g"
    "even (length [''href'', ''evil.css'', ''media'', ''print'']) \<and> mapping sample_Static = Some ?g"
    "even (length ([] :: string list)) \<and> mapping sample_Static = Some ?g"
    using m by simp_all
  have maps: "attrSliceToMap [''src'', ''evil.js''] = Inr [(''src'', ''evil.js'')]"
    "attrSliceToMap [''href'', ''evil.css'', ''media'', ''print''] =
       Inr [(''href'', ''evil.css''), (''media'', ''print'')]"
    "attrSliceToMap [] = Inr []"
    by (simp_all add: attrSliceToMap_def attrSlice_loop.simps)
  note ev = scriptAttrMap_def linkAttrMap_def updateMap_def attrString_def html_EscapeString_def
    htmlEscaper_def sample_Static_def StaticMap_Get_def getStringFromMap_def toMinifiedName_def
    filepath_Ext_def strings_TrimSuffix_def strings_HasSuffix_def
  from hyp(1) tag_url_attribute_fixed
    [where attrs = "[''src'', ''evil.js'']" and st = sample_Static and path = "''js/main.js''"
       and g = ?g]
  obtain a1 where e1: "attrSliceToMap [''src'', ''evil.js''] = Inr a1"
    and t1: "ScriptTag sample_Static ''js/main.js'' [''src'', ''evil.js''] =
      Returned (''<script '' @ strings_Join (sort (map attrString
        (scriptAttrMap (urlPrefix sample_Static @ ?g ''js/main.js'') a1))) '' '' @ ''></script>'', None)"
    by blast
  from e1 have v1: "a1 = [(''src'', ''evil.js'')]" by (simp add: maps)
  from t1 have a: \<open>ScriptTag sample_Static ''js/main.js'' [''src'', ''evil.js''] =
     Returned (''<script src="/static/js/main.js" type="text/javascript"></script>'', None)\<close>
    unfolding v1 by (simp add: ev)
  from hyp(2) tag_url_attribute_fixed
    [where attrs = "[''href'', ''evil.css'', ''media'', ''print'']" and st = sample_Static
       and path = "''css/style.css''" and g = ?g]
  obtain a2 where e2: "attrSliceToMap [''href'', ''evil.css'', ''media'', ''print''] = Inr a2"
    and t2: "LinkTag sample_Static ''css/style.css'' [''href'', ''evil.css'', ''media'', ''print''] =
      Returned (''<link '' @ strings_Join (sort (map attrString
        (linkAttrMap (urlPrefix sample_Static @ ?g ''css/style.css'') a2))) '' '' @ ''/>'', None)"
    by blast
  from e2 have v2: "a2 = [(''href'', ''evil.css''), (''media'', ''print'')]" by (simp add: maps)
  from t2 have b: \<open>LinkTag sample_Static ''css/style.css'' [''href'', ''evil.css'', ''media'', ''print''] =
     Returned (''<link href="/static/css/style.css" media="print" rel="stylesheet" type="text/css"/>'', None)\<close>
    unfolding v2 by (simp add: ev)
  from hyp(3) tag_url_attribute_fixed
    [where attrs = "[]" and st = sample_Static and path = "''x.js?a=1&b=2''" and g = ?g]
  obtain a3 where e3: "attrSliceToMap [] = Inr a3"
    and t3: "ScriptTag sample_Static ''x.js?a=1&b=2'' [] =
      Returned (''<script '' @ strings_Join (sort (map attrString
        (scriptAttrMap (urlPrefix sample_Static @ ?g ''x.js?a=1&b=2'') a3))) '' '' @ ''></script>'', None)"
    by blast
  from e3 have v3: "a3 = []" by (simp add: maps)
  from t3 have c: \<open>ScriptTag sample_Static ''x.js?a=1&b=2'' [] =
     Returned (''<script src="/static/x.js?a=1&amp;b=2" type="text/javascript"></script>'', None)\<close>
    unfolding v3 by (simp add: ev)
  from a b c show ?thesis by blast
qed

text \<open>
  C10. In an attribute list of even length, a name is mapped to the value of the last
  pair that carries it: when no later pair has the name of pair \<open>j\<close>, the map built by
  \<open>attrSliceToMap\<close> holds the value of pair \<open>j\<close> under that name, and no error is reported.
\<close>

theorem attrSliceToMap_last_pair_wins:
  assumes "even (length attrs)" and "2 * j + 1 < length attrs"
    and "\<forall>j'. j < j' \<and> 2 * j' + 1 < length attrs \<longrightarrow> attrs ! (2 * j') \<noteq> attrs ! (2 * j)"
  shows "\<exists>m. attrSliceToMap attrs = Inr m \<and>
             map_of m (attrs ! (2 * j)) = Some (attrs ! (2 * j + 1))"
proof -
  have "map_of (rev (pairs attrs)) (attrs ! (2 * j)) = Some (attrs ! (2 * j + 1))"
    using assms by (rule last_pair_value)
  with assms(1) show ?thesis
    by (simp add: attrSliceToMap_even map_of_fold_update)
qed

theorem attrSliceToMap_last_pair_wins_witness:
  "\<exists>m. attrSliceToMap [''id'', ''first'', ''id'', ''second'', ''defer'', ''defer''] = Inr m \<and>
       map_of m ''id'' = Some ''second''"
proof -
  let ?attrs = "[''id'', ''first'', ''id'', ''second'', ''defer'', ''defer'']"
  have later: "\<forall>j'. 1 < j' \<and> 2 * j' + 1 < length ?attrs \<longrightarrow> ?attrs ! (2 * j') \<noteq> ?attrs ! (2 * 1)"
  proof (intro allI impI)
    fix j' :: nat assume "1 < j' \<and> 2 * j' + 1 < length ?attrs"
    then have "j' = 2" by simp
    then show "?attrs ! (2 * j') \<noteq> ?attrs ! (2 * 1)" by simp
  qed
  have "even (length ?attrs)" by simp
  moreover have "2 * 1 + 1 < length ?attrs" by simp
  ultimately show ?thesis
    using attrSliceToMap_last_pair_wins [of ?attrs 1, OF _ _ later] by simp
qed

end
